theory Spec2Isabelle
  imports Complex_Main "HOL-Library.Multiset"
begin

section \<open>Python values used by main.py\<close>

text \<open>
  The exceptions main.py can raise on the paths modelled here. \<open>AssertionError\<close>
  carries the message of the failing \<^verbatim>\<open>assert\<close>; \<open>ExternalError\<close> stands for any
  exception raised inside a collaborator that is not part of main.py (the TensorFlow
  session, the minibatch iterator).
\<close>

datatype error =
    KeyError
  | IndexError
  | AssertionError string
  | ValueError
  | ExternalError

definition and_then :: "error + 'a \<Rightarrow> ('a \<Rightarrow> error + 'b) \<Rightarrow> error + 'b" where
  "and_then r f = (case r of Inl e \<Rightarrow> Inl e | Inr x \<Rightarrow> f x)"

fun fold_err :: "('a \<Rightarrow> 's \<Rightarrow> error + 's) \<Rightarrow> 'a list \<Rightarrow> 's \<Rightarrow> error + 's" where
  "fold_err f [] s = Inr s"
| "fold_err f (x # xs) s = (case f x s of Inl e \<Rightarrow> Inl e | Inr s' \<Rightarrow> fold_err f xs s')"

subsection \<open>Dictionaries and sets\<close>

text \<open>
  A \<^verbatim>\<open>dict\<close> is an association list in insertion order with distinct keys;
  \<^verbatim>\<open>d[k]\<close> raises \<open>KeyError\<close> on a missing key, \<^verbatim>\<open>d[k] = v\<close> overwrites in place
  or appends. A \<^verbatim>\<open>list\<close> index out of range raises \<open>IndexError\<close>.
\<close>

type_synonym ('k, 'v) dict = "('k \<times> 'v) list"

definition dict_get :: "('k, 'v) dict \<Rightarrow> 'k \<Rightarrow> error + 'v" where
  "dict_get d k = (case map_of d k of None \<Rightarrow> Inl KeyError | Some v \<Rightarrow> Inr v)"

definition dict_has :: "('k, 'v) dict \<Rightarrow> 'k \<Rightarrow> bool" where
  "dict_has d k = (map_of d k \<noteq> None)"

definition dict_set :: "('k, 'v) dict \<Rightarrow> 'k \<Rightarrow> 'v \<Rightarrow> ('k, 'v) dict" where
  "dict_set d k v =
     (if dict_has d k then map (\<lambda>(k', v'). if k' = k then (k', v) else (k', v')) d
      else d @ [(k, v)])"

definition list_get :: "'a list \<Rightarrow> nat \<Rightarrow> error + 'a" where
  "list_get xs i = (if i < length xs then Inr (xs ! i) else Inl IndexError)"

text \<open>
  A \<^verbatim>\<open>set\<close> is kept as the list of its distinct members in the order they were added.
  The order in which CPython iterates a set is not this order (for strings it depends on
  the per-process hash seed), so every iteration over a set goes through a function
  \<open>set_iter\<close> that the model takes as an input.
\<close>

definition set_add :: "'a \<Rightarrow> 'a list \<Rightarrow> 'a list" where
  "set_add x s = (if x \<in> set s then s else s @ [x])"

definition enumerate_py :: "'a list \<Rightarrow> (nat \<times> 'a) list" where
  "enumerate_py xs = zip [0..<length xs] xs"

subsection \<open>Sparse matrices\<close>

text \<open>
  A scipy sparse matrix (or numpy 2-d array), reduced to what main.py reads of it: its
  shape and its entries. All matrices of main.py hold the numbers 0 and 1.
  \<^verbatim>\<open>m[u, v]\<close> raises \<open>IndexError\<close> outside the shape.
\<close>

record npmat =
  nrows :: nat
  ncols :: nat
  ent :: "nat \<Rightarrow> nat \<Rightarrow> int"

definition zeros :: "nat \<Rightarrow> nat \<Rightarrow> npmat" where
  "zeros r c = \<lparr>nrows = r, ncols = c, ent = (\<lambda>_ _. 0)\<rparr>"

definition mat_get :: "npmat \<Rightarrow> nat \<Rightarrow> nat \<Rightarrow> error + int" where
  "mat_get m u v = (if u < nrows m \<and> v < ncols m then Inr (ent m u v) else Inl IndexError)"

definition mat_put :: "npmat \<Rightarrow> nat \<Rightarrow> nat \<Rightarrow> int \<Rightarrow> npmat" where
  "mat_put m u v x = m\<lparr>ent := (ent m)(u := (ent m u)(v := x))\<rparr>"

definition mat_set :: "npmat \<Rightarrow> nat \<Rightarrow> nat \<Rightarrow> int \<Rightarrow> error + npmat" where
  "mat_set m u v x = (if u < nrows m \<and> v < ncols m then Inr (mat_put m u v x) else Inl IndexError)"

text \<open>\<^verbatim>\<open>m.transpose(copy=True)\<close>\<close>

definition mat_T :: "npmat \<Rightarrow> npmat" where
  "mat_T m = \<lparr>nrows = ncols m, ncols = nrows m, ent = (\<lambda>i j. ent m j i)\<rparr>"

text \<open>\<^verbatim>\<open>np.array(m.sum(axis=0)).squeeze()\<close>: one sum per column.\<close>

definition col_sum :: "npmat \<Rightarrow> nat \<Rightarrow> int" where
  "col_sum m j = sum_list (map (\<lambda>i. ent m i j) [0..<nrows m])"

definition row_sum :: "npmat \<Rightarrow> nat \<Rightarrow> int" where
  "row_sum m i = sum_list (map (\<lambda>j. ent m i j) [0..<ncols m])"

definition col_sums :: "npmat \<Rightarrow> int list" where
  "col_sums m = map (col_sum m) [0..<ncols m]"

definition shape :: "npmat \<Rightarrow> nat \<times> nat" where
  "shape m = (nrows m, ncols m)"

section \<open>load_decagon_data\<close>

text \<open>
  Everything \<^verbatim>\<open>load_decagon_data\<close> reads from outside main.py:
  \<^item> \<open>planted_adj\<close>: the adjacency matrix of
    \<^verbatim>\<open>nx.planted_partition_graph(360, 53, 0.1, 0.01, seed=42)\<close>;
  \<^item> \<open>np_randn\<close>: the stream of standard normal draws of numpy's global generator, which
    line 30 seeds with \<^verbatim>\<open>np.random.seed(0)\<close>; draw \<open>k\<close> is the \<open>k\<close>-th number produced;
  \<^item> \<open>py_randint\<close>: the stream of results of \<^verbatim>\<open>random.randint(0, 1000)\<close> of Python's
    \<^verbatim>\<open>random\<close> module. main.py never calls \<^verbatim>\<open>random.seed\<close>, so this stream comes
    from the entropy the interpreter seeds the module with at start-up;
  \<^item> what the CSV loaders of \<^verbatim>\<open>polypharmacy.utility\<close> return (used when
    \<^verbatim>\<open>use_dummy\<close> is false);
  \<^item> \<open>set_iter\<close>: the order in which a set of strings is iterated.
\<close>

record world =
  planted_adj :: npmat
  np_randn :: "nat \<Rightarrow> real"
  py_randint :: "nat \<Rightarrow> nat"
  ppi_adj :: npmat
  gene2idx :: "(string, nat) dict"
  drug2proteins :: "(string, string list) dict"
  drug2drug :: "(string, string \<times> string) dict"
  drug2se :: "(string, string list) dict"
  set_iter :: "string list \<Rightarrow> string list"

datatype decoder = Bilinear | Dedicom

text \<open>
  The tuple \<^verbatim>\<open>load_decagon_data\<close> returns. \<^verbatim>\<open>feat\<close> (the identity feature matrices in
  the coordinate form of \<^verbatim>\<open>preprocessing.sparse_to_tuple\<close>) is left out: no property
  below reads it.
\<close>

record decagon_data =
  val_test_size :: real
  adj_mats_orig :: "(nat \<times> nat, npmat list) dict"
  degrees :: "(nat, int list list) dict"
  num_feat :: "(nat, nat) dict"
  nonzero_feat :: "(nat, nat) dict"
  edge_type2dim :: "(nat \<times> nat, (nat \<times> nat) list) dict"
  edge_type2decoder :: "(nat \<times> nat, decoder) dict"
  edge_types :: "(nat \<times> nat, nat) dict"
  num_edge_types :: nat

text \<open>What either branch of \<^verbatim>\<open>load_decagon_data\<close> leaves for the common tail.\<close>

record branch_data =
  n_genes :: nat
  n_drugs :: nat
  gene_adj :: npmat
  gene_degrees :: "int list"
  gene_drug_adj :: npmat
  drug_gene_adj :: npmat
  drug_drug_adj_list :: "npmat list"
  drug_degrees_list :: "int list list"

subsection \<open>The dummy branch (lines 55--76)\<close>

text \<open>\<^verbatim>\<open>combinations(list(range(n)), 2)\<close>: the pairs \<open>d1 < d2\<close> in lexicographic order.\<close>

definition combinations2 :: "nat \<Rightarrow> (nat \<times> nat) list" where
  "combinations2 n = concat (map (\<lambda>d1. map (\<lambda>d2. (d1, d2)) [Suc d1..<n]) [0..<n])"

text \<open>
  Lines 72--74, the loop over the pairs of one relation. \<open>c\<close> counts the calls of
  \<^verbatim>\<open>random.randint\<close> made so far; the pair is always inside the matrix.
\<close>

fun fill_pairs :: "(nat \<Rightarrow> nat) \<Rightarrow> (nat \<times> nat) list \<Rightarrow> nat \<Rightarrow> npmat \<Rightarrow> npmat \<times> nat" where
  "fill_pairs rnd [] c mat = (mat, c)"
| "fill_pairs rnd ((d1, d2) # ps) c mat =
     fill_pairs rnd ps (Suc c)
       (if rnd c < 3 then mat_put (mat_put mat d2 d1 1) d1 d2 1 else mat)"

text \<open>Lines 68--75, the loop over the relations; \<open>k\<close> relations are still to be built.\<close>

fun dummy_drug_drug :: "(nat \<Rightarrow> nat) \<Rightarrow> nat \<Rightarrow> nat \<Rightarrow> nat \<Rightarrow> npmat list" where
  "dummy_drug_drug rnd n 0 c = []"
| "dummy_drug_drug rnd n (Suc k) c =
     (case fill_pairs rnd (combinations2 n) c (zeros n n) of
        (mat, c') \<Rightarrow> mat # dummy_drug_drug rnd n k c')"

text \<open>
  Line 63: \<^verbatim>\<open>(10 * np.random.randn(n_genes, n_drugs) > 15).astype(int)\<close>, the draws
  taken in row-major order.
\<close>

definition dummy_gene_drug :: "(nat \<Rightarrow> real) \<Rightarrow> nat \<Rightarrow> nat \<Rightarrow> npmat" where
  "dummy_gene_drug randn ng nd =
     \<lparr>nrows = ng, ncols = nd,
      ent = (\<lambda>g d. if g < ng \<and> d < nd \<and> 10 * randn (g * nd + d) > 15 then 1 else 0)\<rparr>"

definition dummy_branch :: "world \<Rightarrow> branch_data" where
  "dummy_branch w =
     (let n_genes = 19080;
          n_drugs = 645;
          n_drugdrug_rel_types = 1317;
          gene_adj = planted_adj w;
          gene_drug_adj = dummy_gene_drug (np_randn w) n_genes n_drugs;
          drug_drug_adj_list = dummy_drug_drug (py_randint w) n_drugs n_drugdrug_rel_types 0
      in \<lparr>n_genes = n_genes, n_drugs = n_drugs,
          gene_adj = gene_adj,
          gene_degrees = col_sums gene_adj,
          gene_drug_adj = gene_drug_adj,
          drug_gene_adj = mat_T gene_drug_adj,
          drug_drug_adj_list = drug_drug_adj_list,
          drug_degrees_list = map col_sums drug_drug_adj_list\<rparr>)"

subsection \<open>The real-data branch (lines 79--147)\<close>

text \<open>Lines 95--101: the set of all drugs and their indices.\<close>

definition all_drugs_of :: "(string, string \<times> string) dict \<Rightarrow> string list" where
  "all_drugs_of d2d = fold (\<lambda>(combo, drug1, drug2) s. set_add drug2 (set_add drug1 s)) d2d []"

definition drug2idx_of :: "string list \<Rightarrow> (string, nat) dict" where
  "drug2idx_of order = fold (\<lambda>(i, drug) d. dict_set d drug i) (enumerate_py order) []"

text \<open>Lines 108--110: the set of all side effects.\<close>

definition unique_se_of :: "(string, string list) dict \<Rightarrow> string list" where
  "unique_se_of d2se = fold (\<lambda>(combo, se_set) s. fold set_add se_set s) d2se []"

text \<open>Lines 117--124: the gene-drug matrix.\<close>

definition real_gene_drug ::
  "(string, nat) dict \<Rightarrow> (string, nat) dict \<Rightarrow> (string, string list) dict \<Rightarrow> nat \<Rightarrow> nat
     \<Rightarrow> error + npmat" where
  "real_gene_drug g2i d2i d2p ng nd =
     fold_err (\<lambda>(drug, proteins) mat.
         if dict_has d2i drug then
           and_then (dict_get d2i drug) (\<lambda>drug_idx.
             fold_err (\<lambda>protein mat.
                 if dict_has g2i protein then
                   and_then (dict_get g2i protein) (\<lambda>gene_idx. mat_set mat gene_idx drug_idx 1)
                 else Inr mat)
               proteins mat)
         else Inr mat)
       d2p (zeros ng nd)"

text \<open>Lines 136--145: the matrix of one side effect.\<close>

definition real_se_mat ::
  "(string, nat) dict \<Rightarrow> (string, string \<times> string) dict \<Rightarrow> (string, string list) dict \<Rightarrow> nat
     \<Rightarrow> string \<Rightarrow> error + npmat" where
  "real_se_mat d2i d2d d2se nd se =
     fold_err (\<lambda>(combo, se_set) mat.
         if se \<in> set se_set then
           and_then (dict_get d2d combo) (\<lambda>(drug1, drug2).
             if dict_has d2i drug1 \<and> dict_has d2i drug2 then
               and_then (dict_get d2i drug1) (\<lambda>d1_idx.
               and_then (dict_get d2i drug2) (\<lambda>d2_idx.
               and_then (mat_set mat d1_idx d2_idx 1) (\<lambda>mat.
                 mat_set mat d2_idx d1_idx 1)))
             else Inr mat)
         else Inr mat)
       d2se (zeros nd nd)"

fun map_err :: "('a \<Rightarrow> error + 'b) \<Rightarrow> 'a list \<Rightarrow> error + 'b list" where
  "map_err f [] = Inr []"
| "map_err f (x # xs) =
     (case f x of Inl e \<Rightarrow> Inl e
      | Inr y \<Rightarrow> (case map_err f xs of Inl e \<Rightarrow> Inl e | Inr ys \<Rightarrow> Inr (y # ys)))"

definition real_branch :: "world \<Rightarrow> error + branch_data" where
  "real_branch w =
     (let n_genes = length (gene2idx w);
          gene_adj = ppi_adj w;
          all_drugs = all_drugs_of (drug2drug w);
          drug2idx = drug2idx_of (set_iter w all_drugs);
          n_drugs = length drug2idx;
          unique_se = unique_se_of (drug2se w)
      in and_then (real_gene_drug (gene2idx w) drug2idx (drug2proteins w) n_genes n_drugs)
           (\<lambda>gene_drug_adj.
         and_then (map_err (real_se_mat drug2idx (drug2drug w) (drug2se w) n_drugs)
                     (set_iter w unique_se))
           (\<lambda>drug_drug_adj_list.
         Inr \<lparr>n_genes = n_genes, n_drugs = n_drugs,
              gene_adj = gene_adj,
              gene_degrees = col_sums gene_adj,
              gene_drug_adj = gene_drug_adj,
              drug_gene_adj = mat_T gene_drug_adj,
              drug_drug_adj_list = drug_drug_adj_list,
              drug_degrees_list = map col_sums drug_drug_adj_list\<rparr>)))"

subsection \<open>The common tail (lines 149--197)\<close>

definition assemble :: "branch_data \<Rightarrow> decagon_data" where
  "assemble b =
     (let adj_mats_orig =
            [((0, 0), [gene_adj b, mat_T (gene_adj b)]),
             ((0, 1), [gene_drug_adj b]),
             ((1, 0), [drug_gene_adj b]),
             ((1, 1), drug_drug_adj_list b @ map mat_T (drug_drug_adj_list b))];
          edge_types = map (\<lambda>(k, v). (k, length v)) adj_mats_orig
      in \<lparr>val_test_size = 0.05,
          adj_mats_orig = adj_mats_orig,
          degrees =
            [(0, [gene_degrees b, gene_degrees b]),
             (1, drug_degrees_list b @ drug_degrees_list b)],
          num_feat = [(0, n_genes b), (1, n_drugs b)],
          nonzero_feat = [(0, n_genes b), (1, n_drugs b)],
          edge_type2dim = map (\<lambda>(k, adjs). (k, map shape adjs)) adj_mats_orig,
          edge_type2decoder =
            [((0, 0), Bilinear), ((0, 1), Bilinear), ((1, 0), Bilinear), ((1, 1), Dedicom)],
          edge_types = edge_types,
          num_edge_types = sum_list (map snd edge_types)\<rparr>)"

definition load_decagon_data :: "world \<Rightarrow> bool \<Rightarrow> error + decagon_data" where
  "load_decagon_data w use_dummy =
     (if use_dummy then Inr (assemble (dummy_branch w))
      else and_then (real_branch w) (\<lambda>b. Inr (assemble b)))"

subsection \<open>Reading the returned data\<close>

text \<open>
  \<^verbatim>\<open>adj_mats_orig[key]\<close> and \<^verbatim>\<open>degrees[t]\<close> as lists (empty when the key is missing;
  the theorems below give the keys that are present).
\<close>

definition rel_mats :: "decagon_data \<Rightarrow> nat \<times> nat \<Rightarrow> npmat list" where
  "rel_mats d key = (case map_of (adj_mats_orig d) key of None \<Rightarrow> [] | Some ms \<Rightarrow> ms)"

definition degree_vectors :: "decagon_data \<Rightarrow> nat \<Rightarrow> int list list" where
  "degree_vectors d t = (case map_of (degrees d) t of None \<Rightarrow> [] | Some vs \<Rightarrow> vs)"

definition node_count :: "decagon_data \<Rightarrow> nat \<Rightarrow> nat" where
  "node_count d t = (case map_of (num_feat d) t of None \<Rightarrow> 0 | Some n \<Rightarrow> n)"

definition exposed_degrees :: "world \<Rightarrow> bool \<Rightarrow> nat \<Rightarrow> error + int list list" where
  "exposed_degrees w use_dummy t =
     (case load_decagon_data w use_dummy of Inl e \<Rightarrow> Inl e | Inr d \<Rightarrow> Inr (degree_vectors d t))"

text \<open>
  The degree vector as the specification words it: for a node \<open>n\<close> of type \<open>t\<close>, the
  number of edges at \<open>n\<close> summed over every relation matrix whose node-type pair contains
  \<open>t\<close>. Where \<open>t\<close> is the column type the edges of column \<open>n\<close> are counted (the axis
  main.py sums over), otherwise those of row \<open>n\<close>.
\<close>

definition incident_edges :: "nat \<Rightarrow> nat \<times> nat \<Rightarrow> npmat \<Rightarrow> nat \<Rightarrow> int" where
  "incident_edges t key m n =
     (if snd key = t then col_sum m n else if fst key = t then row_sum m n else 0)"

definition aggregated_degrees :: "decagon_data \<Rightarrow> nat \<Rightarrow> int list" where
  "aggregated_degrees d t =
     map (\<lambda>n. sum_list (concat (map (\<lambda>(key, ms). map (\<lambda>m. incident_edges t key m n) ms)
                                  (adj_mats_orig d))))
       [0..<node_count d t]"

definition claimed_degrees :: "world \<Rightarrow> bool \<Rightarrow> nat \<Rightarrow> error + int list" where
  "claimed_degrees w use_dummy t =
     (case load_decagon_data w use_dummy of Inl e \<Rightarrow> Inl e
      | Inr d \<Rightarrow> Inr (aggregated_degrees d t))"

text \<open>\<^verbatim>\<open>adj_mats_orig[(1, 1)][0][0, 1]\<close> of a load.\<close>

definition first_drug_pair :: "error + decagon_data \<Rightarrow> error + int" where
  "first_drug_pair r =
     and_then r (\<lambda>d. and_then (dict_get (adj_mats_orig d) (1, 1)) (\<lambda>ms.
       and_then (list_get ms 0) (\<lambda>m. mat_get m 0 1)))"

subsection \<open>A small data set\<close>

text \<open>
  Two genes joined by one interaction; three drugs, drug \<open>d0\<close> targeting gene \<open>g0\<close>;
  two side effects, \<open>se0\<close> of the combination \<open>d0, d1\<close> and \<open>se1\<close> of \<open>d1, d2\<close>. Read
  through the real-data branch.
\<close>

definition tiny_world :: world where
  "tiny_world =
     \<lparr>planted_adj = zeros 0 0, np_randn = (\<lambda>_. 0), py_randint = (\<lambda>_. 0),
      ppi_adj = \<lparr>nrows = 2, ncols = 2, ent = (\<lambda>i j. if i + j = 1 then 1 else 0)\<rparr>,
      gene2idx = [(''g0'', 0), (''g1'', 1)],
      drug2proteins = [(''d0'', [''g0''])],
      drug2drug = [(''c0'', (''d0'', ''d1'')), (''c1'', (''d1'', ''d2''))],
      drug2se = [(''c0'', [''se0'']), (''c1'', [''se1''])],
      set_iter = (\<lambda>s. s)\<rparr>"

definition tiny_data :: decagon_data where
  "tiny_data = projr (load_decagon_data tiny_world False)"

text \<open>The same data set with the one target moved: drug \<open>d2\<close> targets gene \<open>g0\<close>.\<close>

definition skew_world :: world where
  "skew_world = tiny_world\<lparr>drug2proteins := [(''d2'', [''g0''])]\<rparr>"

definition skew_data :: decagon_data where
  "skew_data = projr (load_decagon_data skew_world False)"

section \<open>get_accuracy_scores\<close>

subsection \<open>Floating-point scores\<close>

text \<open>
  A numpy float: not-a-number, the two infinities, or a finite value, which is written
  as the real number it denotes.
\<close>

datatype npfloat = NaN | NInf | Fin real | PInf

text \<open>
  The arithmetic of the floats is rounded, and how depends on the float type numpy
  works in. It is not fixed here: the operations that the evaluator applies to a float
  are parameters, and so is the largest finite value of the type. Every property below
  holds for every such arithmetic, in particular for one in which \<^verbatim>\<open>np.exp(-x)\<close>
  rounds to 0 and the sigmoid of every large \<open>x\<close> is exactly 1.
\<close>

record float_ops =
  f_neg :: "npfloat \<Rightarrow> npfloat"
  f_exp :: "npfloat \<Rightarrow> npfloat"
  f_add :: "npfloat \<Rightarrow> npfloat \<Rightarrow> npfloat"
  f_div :: "npfloat \<Rightarrow> npfloat \<Rightarrow> npfloat"
  f_max :: real

text \<open>Line 207, \<^verbatim>\<open>1. / (1 + np.exp(-x))\<close>.\<close>

definition sigmoid :: "float_ops \<Rightarrow> npfloat \<Rightarrow> npfloat" where
  "sigmoid np x = f_div np (Fin 1) (f_add np (Fin 1) (f_exp np (f_neg np x)))"

text \<open>
  \<^verbatim>\<open>np.nan_to_num\<close>: not-a-number becomes 0, an infinity the largest finite value of
  its sign, and a finite value stays.
\<close>

fun nan_to_num :: "float_ops \<Rightarrow> npfloat \<Rightarrow> real" where
  "nan_to_num np NaN = 0"
| "nan_to_num np NInf = - f_max np"
| "nan_to_num np (Fin x) = x"
| "nan_to_num np PInf = f_max np"

text \<open>The comparison \<^verbatim>\<open>a < b\<close> of two floats: false whenever one is not-a-number.\<close>

fun np_less :: "npfloat \<Rightarrow> npfloat \<Rightarrow> bool" where
  "np_less NaN _ = False"
| "np_less _ NaN = False"
| "np_less NInf NInf = False"
| "np_less NInf _ = True"
| "np_less (Fin x) NInf = False"
| "np_less (Fin x) (Fin y) = (x < y)"
| "np_less (Fin x) PInf = True"
| "np_less PInf _ = False"

text \<open>The score matrix \<^verbatim>\<open>rec\<close> that the session returns for \<^verbatim>\<open>opt.predictions\<close>.\<close>

record recmat =
  r_rows :: nat
  r_cols :: nat
  r_ent :: "nat \<Rightarrow> nat \<Rightarrow> npfloat"

definition rec_get :: "recmat \<Rightarrow> nat \<Rightarrow> nat \<Rightarrow> error + npfloat" where
  "rec_get r u v = (if u < r_rows r \<and> v < r_cols r then Inr (r_ent r u v) else Inl IndexError)"

subsection \<open>The feed dictionary\<close>

text \<open>
  The placeholders that \<^verbatim>\<open>construct_placeholders\<close> creates (lines 243--258) are the keys
  of the feed dictionary; a fed value is a number or a tensor, the latter kept opaque.
\<close>

datatype placeholder =
    Batch
  | Batch_edge_type_idx
  | Batch_row_edge_type
  | Batch_col_edge_type
  | Degrees
  | Dropout
  | Adj_mats nat nat nat
  | Feat nat

datatype feed_value = IntVal int | FloatVal real | Tensor nat

type_synonym feed = "(placeholder, feed_value) dict"

type_synonym edge_type = "nat \<times> nat \<times> nat"

type_synonym edges = "(nat \<times> nat, (nat \<times> nat) list list) dict"

subsection \<open>sorted with reverse=True and a key\<close>

text \<open>
  Line 235, \<^verbatim>\<open>sorted(predicted, reverse=True, key=itemgetter(0))\<close>. The sort is stable
  and compares the scores only, with \<^verbatim>\<open><\<close>.
  \<^item> Where no score is not-a-number, \<^verbatim>\<open><\<close> orders the scores and the result is the one
    stable descending order. It is written as the insertion sort that puts an element in
    front of the first one whose score is not greater.
  \<^item> On two items the sort makes one comparison, \<^verbatim>\<open>key0 < key1\<close>, and swaps the items
    when it holds; this is what the insertion does, whatever the scores are. On fewer
    items there is nothing to compare.
  \<^item> On more than two items of which some score is not-a-number the comparisons are
    inconsistent, and the order that comes out depends on how the interpreter's sort
    finds and merges its runs. It is a parameter, \<open>nan_order\<close>.
\<close>

fun insert_by_score :: "npfloat \<times> nat \<Rightarrow> (npfloat \<times> nat) list \<Rightarrow> (npfloat \<times> nat) list" where
  "insert_by_score x [] = [x]"
| "insert_by_score x (y # ys) =
     (if np_less (fst x) (fst y) then y # insert_by_score x ys else x # y # ys)"

definition stable_descending :: "(npfloat \<times> nat) list \<Rightarrow> (npfloat \<times> nat) list" where
  "stable_descending xs = foldr insert_by_score xs []"

definition sorted_reverse ::
  "((npfloat \<times> nat) list \<Rightarrow> (npfloat \<times> nat) list) \<Rightarrow> (npfloat \<times> nat) list
     \<Rightarrow> (npfloat \<times> nat) list" where
  "sorted_reverse nan_order xs =
     (if NaN \<in> set (map fst xs) \<and> 2 < length xs then nan_order xs else stable_descending xs)"

subsection \<open>The metrics of sklearn\<close>

text \<open>
  \<^verbatim>\<open>sklearn.metrics\<close> is a library outside the repository; the two functions are
  written as the library computes them, over exact reals. Both start from the binary
  classification curve: the distinct scores in descending order are the thresholds, and
  at a threshold \<open>t\<close> the true (false) positives are the samples of label 1 (label 0)
  whose score is at least \<open>t\<close>.
\<close>

fun insert_threshold :: "real \<Rightarrow> real list \<Rightarrow> real list" where
  "insert_threshold x [] = [x]"
| "insert_threshold x (y # ys) =
     (if y < x then x # y # ys else if x = y then y # ys else y # insert_threshold x ys)"

definition thresholds :: "real list \<Rightarrow> real list" where
  "thresholds y_score = foldr insert_threshold y_score []"

definition tps :: "real list \<Rightarrow> real list \<Rightarrow> real \<Rightarrow> nat" where
  "tps y_true y_score t = length (filter (\<lambda>(l, s). l = 1 \<and> t \<le> s) (zip y_true y_score))"

definition fps :: "real list \<Rightarrow> real list \<Rightarrow> real \<Rightarrow> nat" where
  "fps y_true y_score t = length (filter (\<lambda>(l, s). l \<noteq> 1 \<and> t \<le> s) (zip y_true y_score))"

definition count_pos :: "real list \<Rightarrow> nat" where
  "count_pos y_true = length (filter (\<lambda>l. l = 1) y_true)"

definition count_neg :: "real list \<Rightarrow> nat" where
  "count_neg y_true = length (filter (\<lambda>l. l \<noteq> 1) y_true)"

text \<open>\<^verbatim>\<open>np.trapz(y, x)\<close> over the points \<open>(x, y)\<close> of a curve.\<close>

fun trapz :: "(real \<times> real) list \<Rightarrow> real" where
  "trapz (p # q # ps) = (fst q - fst p) * (snd p + snd q) / 2 + trapz (q # ps)"
| "trapz _ = 0"

text \<open>
  \<^verbatim>\<open>roc_auc_score\<close>: \<open>ValueError\<close> unless \<^verbatim>\<open>y_true\<close> holds exactly two classes;
  otherwise the area, by the trapezoidal rule, under the curve that starts at \<open>(0, 0)\<close>
  and has the point (false-positive rate, true-positive rate) of every threshold.
\<close>

definition roc_curve :: "real list \<Rightarrow> real list \<Rightarrow> (real \<times> real) list" where
  "roc_curve y_true y_score =
     (0, 0) # map (\<lambda>t. (real (fps y_true y_score t) / real (count_neg y_true),
                         real (tps y_true y_score t) / real (count_pos y_true)))
                  (thresholds y_score)"

definition roc_auc_score :: "real list \<Rightarrow> real list \<Rightarrow> error + real" where
  "roc_auc_score y_true y_score =
     (if length (remdups y_true) \<noteq> 2 then Inl ValueError
      else Inr (trapz (roc_curve y_true y_score)))"

text \<open>
  \<^verbatim>\<open>average_precision_score\<close>: the sum over the thresholds, in descending order, of
  the precision at the threshold times the gain in recall since the previous one.
\<close>

fun ap_sum :: "real \<Rightarrow> (real \<times> real) list \<Rightarrow> real" where
  "ap_sum r0 [] = 0"
| "ap_sum r0 ((p, r) # rest) = (r - r0) * p + ap_sum r rest"

definition pr_curve :: "real list \<Rightarrow> real list \<Rightarrow> (real \<times> real) list" where
  "pr_curve y_true y_score =
     map (\<lambda>t. (real (tps y_true y_score t)
                  / real (tps y_true y_score t + fps y_true y_score t),
                real (tps y_true y_score t) / real (count_pos y_true)))
         (thresholds y_score)"

definition average_precision_score :: "real list \<Rightarrow> real list \<Rightarrow> real" where
  "average_precision_score y_true y_score = ap_sum 0 (pr_curve y_true y_score)"

subsection \<open>The evaluator (lines 199--241)\<close>

text \<open>
  The globals \<^verbatim>\<open>get_accuracy_scores\<close> reads: \<^verbatim>\<open>adj_mats_orig\<close>,
  \<^verbatim>\<open>minibatch.edge_type2idx\<close>, the session (\<open>g_sess_run fd\<close> is
  \<^verbatim>\<open>sess.run(opt.predictions, feed_dict=fd)\<close>, which may raise),
  \<^verbatim>\<open>rank_metrics.apk\<close>, a function of the repository that is not among the sources and
  is taken as it comes, the float arithmetic of \<^verbatim>\<open>np\<close>, and the order in which the
  interpreter's \<^verbatim>\<open>sorted\<close> leaves more than two items when a key is not-a-number.
\<close>

record eval_globals =
  g_adj_mats_orig :: "(nat \<times> nat, npmat list) dict"
  g_edge_type2idx :: "(edge_type, nat) dict"
  g_sess_run :: "feed \<Rightarrow> error + recmat"
  g_apk :: "nat list \<Rightarrow> nat list \<Rightarrow> nat \<Rightarrow> real"
  g_np :: float_ops
  g_sorted_nan :: "(npfloat \<times> nat) list \<Rightarrow> (npfloat \<times> nat) list"

text \<open>\<^verbatim>\<open>edges[edge_type[:2]][edge_type[2]]\<close>\<close>

definition edge_list :: "edges \<Rightarrow> edge_type \<Rightarrow> error + (nat \<times> nat) list" where
  "edge_list es et =
     (case et of (i, j, k) \<Rightarrow> and_then (dict_get es (i, j)) (\<lambda>lists. list_get lists k))"

text \<open>\<^verbatim>\<open>adj_mats_orig[edge_type[:2]][edge_type[2]][u, v]\<close>\<close>

definition adj_lookup :: "eval_globals \<Rightarrow> edge_type \<Rightarrow> nat \<Rightarrow> nat \<Rightarrow> error + int" where
  "adj_lookup g et u v =
     (case et of (i, j, k) \<Rightarrow>
        and_then (dict_get (g_adj_mats_orig g) (i, j)) (\<lambda>ms.
        and_then (list_get ms k) (\<lambda>m. mat_get m u v)))"

text \<open>The local lists of the two loops and the running index.\<close>

record scored =
  preds :: "npfloat list"
  preds_neg :: "npfloat list"
  actual :: "nat list"
  predicted :: "(npfloat \<times> nat) list"
  edge_ind :: nat

text \<open>The body of the loop over the positive edges, lines 215--221.\<close>

definition pos_step ::
  "eval_globals \<Rightarrow> recmat \<Rightarrow> edge_type \<Rightarrow> nat \<times> nat \<Rightarrow> scored \<Rightarrow> error + scored" where
  "pos_step g r et e s =
     (case e of (u, v) \<Rightarrow>
        and_then (rec_get r u v) (\<lambda>x.
          let score = sigmoid (g_np g) x in
          and_then (adj_lookup g et u v) (\<lambda>a.
            if a = 1 then
              Inr (s\<lparr>preds := preds s @ [score],
                     actual := actual s @ [edge_ind s],
                     predicted := predicted s @ [(score, edge_ind s)],
                     edge_ind := edge_ind s + 1\<rparr>)
            else Inl (AssertionError ''Problem 1''))))"

text \<open>The body of the loop over the negative edges, lines 225--230.\<close>

definition neg_step ::
  "eval_globals \<Rightarrow> recmat \<Rightarrow> edge_type \<Rightarrow> nat \<times> nat \<Rightarrow> scored \<Rightarrow> error + scored" where
  "neg_step g r et e s =
     (case e of (u, v) \<Rightarrow>
        and_then (rec_get r u v) (\<lambda>x.
          let score = sigmoid (g_np g) x in
          and_then (adj_lookup g et u v) (\<lambda>a.
            if a = 0 then
              Inr (s\<lparr>preds_neg := preds_neg s @ [score],
                     predicted := predicted s @ [(score, edge_ind s)],
                     edge_ind := edge_ind s + 1\<rparr>)
            else Inl (AssertionError ''Problem 0''))))"

text \<open>
  Lines 232--241. \<^verbatim>\<open>list(zip(*sorted(...)))[1]\<close> raises \<open>IndexError\<close> when there is no
  edge at all, since the unzipped list is then empty.
\<close>

definition labels_all_of :: "scored \<Rightarrow> real list" where
  "labels_all_of s = replicate (length (preds s)) 1 @ replicate (length (preds_neg s)) 0"

definition preds_all_of :: "eval_globals \<Rightarrow> scored \<Rightarrow> real list" where
  "preds_all_of g s = map (nan_to_num (g_np g)) (preds s @ preds_neg s)"

definition metrics :: "eval_globals \<Rightarrow> scored \<Rightarrow> error + real \<times> real \<times> real" where
  "metrics g s =
     (let preds_all = preds_all_of g s;
          labels_all = labels_all_of s
      in if predicted s = [] then Inl IndexError
         else
           let ranked = map snd (sorted_reverse (g_sorted_nan g) (predicted s)) in
           and_then (roc_auc_score labels_all preds_all) (\<lambda>roc_sc.
             let aupr_sc = average_precision_score labels_all preds_all;
                 apk_sc = g_apk g (actual s) ranked 50
             in Inr (roc_sc, aupr_sc, apk_sc)))"

text \<open>Lines 210--241: everything after the session has returned \<^verbatim>\<open>rec\<close>.\<close>

definition score_edges ::
  "eval_globals \<Rightarrow> recmat \<Rightarrow> edges \<Rightarrow> edges \<Rightarrow> edge_type \<Rightarrow> error + scored" where
  "score_edges g r edges_pos edges_neg et =
     and_then (edge_list edges_pos et) (\<lambda>pos.
     and_then (fold_err (pos_step g r et) pos
                 \<lparr>preds = [], preds_neg = [], actual = [], predicted = [], edge_ind = 0\<rparr>) (\<lambda>s.
     and_then (edge_list edges_neg et) (\<lambda>neg.
       fold_err (neg_step g r et) neg s)))"

text \<open>
  The whole function. It returns its result, or the exception it raises, together with
  the global \<^verbatim>\<open>feed_dict\<close> as the call leaves it: the four \<^verbatim>\<open>update\<close> calls of lines
  200--203 change the dictionary in place. The lookup \<^verbatim>\<open>edge_type2idx[edge_type]\<close> of
  line 201 can raise after line 200 has run.
\<close>

definition feed_updates :: "feed \<Rightarrow> nat \<Rightarrow> edge_type \<Rightarrow> feed" where
  "feed_updates fd1 idx et =
     (let fd2 = dict_set fd1 Batch_edge_type_idx (IntVal (int idx));
          fd3 = dict_set fd2 Batch_row_edge_type (IntVal (int (fst et)))
      in dict_set fd3 Batch_col_edge_type (IntVal (int (fst (snd et)))))"

definition get_accuracy_scores ::
  "eval_globals \<Rightarrow> feed \<Rightarrow> edges \<Rightarrow> edges \<Rightarrow> edge_type
     \<Rightarrow> (error + real \<times> real \<times> real) \<times> feed" where
  "get_accuracy_scores g feed_dict edges_pos edges_neg et =
     (let fd1 = dict_set feed_dict Dropout (IntVal 0) in
      case dict_get (g_edge_type2idx g) et of
        Inl e \<Rightarrow> (Inl e, fd1)
      | Inr idx \<Rightarrow>
          let fd4 = feed_updates fd1 idx et
          in (and_then (g_sess_run g fd4) (\<lambda>r.
                and_then (score_edges g r edges_pos edges_neg et) (metrics g)),
              fd4))"

subsection \<open>Vocabulary for the properties of the evaluator\<close>

text \<open>The score line 215 (225) computes for an edge, and the pooled score vector.\<close>

definition edge_score :: "eval_globals \<Rightarrow> recmat \<Rightarrow> nat \<times> nat \<Rightarrow> npfloat" where
  "edge_score g r e = sigmoid (g_np g) (r_ent r (fst e) (snd e))"

definition pooled_scores ::
  "eval_globals \<Rightarrow> recmat \<Rightarrow> (nat \<times> nat) list \<Rightarrow> (nat \<times> nat) list \<Rightarrow> npfloat list" where
  "pooled_scores g r pos neg = map (edge_score g r) (pos @ neg)"

text \<open>
  Every edge of the list lies inside \<^verbatim>\<open>rec\<close> and the adjacency matrix of the relation
  holds \<open>a\<close> there.
\<close>

definition edges_ok :: "eval_globals \<Rightarrow> recmat \<Rightarrow> edge_type \<Rightarrow> int \<Rightarrow> (nat \<times> nat) list \<Rightarrow> bool" where
  "edges_ok g r et a es =
     list_all (\<lambda>(u, v). u < r_rows r \<and> v < r_cols r \<and> adj_lookup g et u v = Inr a) es"

text \<open>
  The call gets as far as line 232: the relation has an index, the session returns
  \<open>r\<close>, both edge lists exist, and no lookup or assertion of the two loops fails.
\<close>

definition reaches_metrics ::
  "eval_globals \<Rightarrow> feed \<Rightarrow> edges \<Rightarrow> edges \<Rightarrow> edge_type \<Rightarrow> recmat
     \<Rightarrow> (nat \<times> nat) list \<Rightarrow> (nat \<times> nat) list \<Rightarrow> bool" where
  "reaches_metrics g fd edges_pos edges_neg et r pos neg =
     ((case dict_get (g_edge_type2idx g) et of
         Inl e \<Rightarrow> False
       | Inr idx \<Rightarrow>
           g_sess_run g (feed_updates (dict_set fd Dropout (IntVal 0)) idx et) = Inr r)
      \<and> edge_list edges_pos et = Inr pos
      \<and> edge_list edges_neg et = Inr neg
      \<and> edges_ok g r et 1 pos
      \<and> edges_ok g r et 0 neg)"

text \<open>
  The order of two scored candidates in a descending, stable ranking: the higher score
  first, and of two equal scores the one inserted first.
\<close>

definition ranks_before :: "npfloat \<times> nat \<Rightarrow> npfloat \<times> nat \<Rightarrow> bool" where
  "ranks_before x y = (np_less (fst y) (fst x) \<or> (fst x = fst y \<and> snd x < snd y))"

subsection \<open>An example relation\<close>

text \<open>
  Modelled from the spec: \<^verbatim>\<open>rank_metrics.apk\<close> is not among the sources. The
  specification describes it as the average precision computed only over the top \<open>k\<close>
  ranked candidates, the relevant items being the known positive edges. It is used below
  only to fill \<open>g_apk\<close> in the examples; no general property depends on it.
\<close>

fun apk_loop :: "nat list \<Rightarrow> nat list \<Rightarrow> nat list \<Rightarrow> nat \<Rightarrow> real \<Rightarrow> real \<Rightarrow> real" where
  "apk_loop relevant seen [] i hits score = score"
| "apk_loop relevant seen (p # ps) i hits score =
     (if p \<in> set relevant \<and> p \<notin> set seen
      then apk_loop relevant (seen @ [p]) ps (Suc i) (hits + 1) (score + (hits + 1) / (real i + 1))
      else apk_loop relevant (seen @ [p]) ps (Suc i) hits score)"

definition apk_at_k :: "nat list \<Rightarrow> nat list \<Rightarrow> nat \<Rightarrow> real" where
  "apk_at_k relevant ranked k =
     (if relevant = [] then 0
      else apk_loop relevant [] (take k ranked) 0 0 0 / real (min (length relevant) k))"

text \<open>
  An arithmetic for the examples: exact on the finite values, with the usual rules for
  the infinities and for not-a-number, and with the largest finite double.
\<close>

fun exact_neg :: "npfloat \<Rightarrow> npfloat" where
  "exact_neg NaN = NaN"
| "exact_neg NInf = PInf"
| "exact_neg (Fin x) = Fin (- x)"
| "exact_neg PInf = NInf"

fun exact_exp :: "npfloat \<Rightarrow> npfloat" where
  "exact_exp NaN = NaN"
| "exact_exp NInf = Fin 0"
| "exact_exp (Fin x) = Fin (exp x)"
| "exact_exp PInf = PInf"

fun exact_add :: "npfloat \<Rightarrow> npfloat \<Rightarrow> npfloat" where
  "exact_add (Fin x) (Fin y) = Fin (x + y)"
| "exact_add (Fin x) b = b"
| "exact_add a (Fin y) = a"
| "exact_add a b = (if a = b then a else NaN)"

fun exact_div :: "npfloat \<Rightarrow> npfloat \<Rightarrow> npfloat" where
  "exact_div (Fin x) (Fin y) =
     (if y \<noteq> 0 then Fin (x / y) else if x = 0 then NaN else if 0 < x then PInf else NInf)"
| "exact_div (Fin x) NaN = NaN"
| "exact_div (Fin x) b = Fin 0"
| "exact_div NaN b = NaN"
| "exact_div a NaN = NaN"
| "exact_div a (Fin y) = (if (0 \<le> y) = (a = PInf) then PInf else NInf)"
| "exact_div a b = NaN"

definition exact_arith :: float_ops where
  "exact_arith =
     \<lparr>f_neg = exact_neg, f_exp = exact_exp, f_add = exact_add, f_div = exact_div,
      f_max = (2 ^ 53 - 1) * 2 ^ 971\<rparr>"

text \<open>
  An arithmetic in which \<^verbatim>\<open>np.exp\<close> rounds to 0 below \<open>-36\<close>, as far as the examples
  need it: the sigmoid of 37 and of 40 is then exactly 1.
\<close>

definition rounding_arith :: float_ops where
  "rounding_arith =
     exact_arith\<lparr>f_exp := (\<lambda>a. case a of Fin x \<Rightarrow> if x < - 36 then Fin 0 else Fin (exp x)
                                      | _ \<Rightarrow> exact_exp a)\<rparr>"

text \<open>
  The relation of the specification's example: three nodes, the edges \<open>(0,1)\<close> and
  \<open>(1,2)\<close>; the positives are these two edges and the negatives are \<open>(0,2)\<close> and
  \<open>(2,0)\<close>. The session returns the score matrix \<open>r\<close> whatever it is fed. No
  example below has more than two candidates when one of its scores is not-a-number, so
  \<open>g_sorted_nan\<close> is never asked.
\<close>

definition example_adj :: npmat where
  "example_adj =
     \<lparr>nrows = 3, ncols = 3,
      ent = (\<lambda>u v. if (u, v) = (0, 1) \<or> (u, v) = (1, 2) then 1 else 0)\<rparr>"

definition example_globals :: "recmat \<Rightarrow> eval_globals" where
  "example_globals r =
     \<lparr>g_adj_mats_orig = [((0, 0), [example_adj])],
      g_edge_type2idx = [((0, 0, 0), 0)],
      g_sess_run = (\<lambda>fd. Inr r),
      g_apk = apk_at_k,
      g_np = exact_arith,
      g_sorted_nan = (\<lambda>xs. xs)\<rparr>"

definition example_pos :: edges where
  "example_pos = [((0, 0), [[(0, 1), (1, 2)]])]"

definition example_neg :: edges where
  "example_neg = [((0, 0), [[(0, 2), (2, 0)]])]"

text \<open>
  Score matrices: one whose sigmoids are 0.9 and 0.8 on the positives and 0.1 and 0.2 on
  the negatives; one with a tie between a positive and a negative; one with logits 40 on
  the positives and 37 on the negatives.
\<close>

definition separated_rec :: recmat where
  "separated_rec =
     \<lparr>r_rows = 3, r_cols = 3,
      r_ent = (\<lambda>u v. if (u, v) = (0, 1) then Fin (ln 9)
                      else if (u, v) = (1, 2) then Fin (ln 4)
                      else if (u, v) = (0, 2) then Fin (- ln 9)
                      else Fin (- ln 4))\<rparr>"

definition saturated_rec :: recmat where
  "saturated_rec =
     \<lparr>r_rows = 3, r_cols = 3,
      r_ent = (\<lambda>u v. if (u, v) = (0, 1) \<or> (u, v) = (1, 2) then Fin 40 else Fin 37)\<rparr>"

text \<open>
  One positive and one negative edge, and score matrices with a not-a-number on the
  positive edge and the logit 0 (score one half) or minus infinity (score 0) on the
  negative edge.
\<close>

definition single_pos :: edges where
  "single_pos = [((0, 0), [[(0, 1)]])]"

definition single_neg :: edges where
  "single_neg = [((0, 0), [[(0, 2)]])]"

definition nan_rec :: recmat where
  "nan_rec =
     \<lparr>r_rows = 3, r_cols = 3,
      r_ent = (\<lambda>u v. if (u, v) = (0, 1) then NaN else Fin 0)\<rparr>"

definition nan_low_rec :: recmat where
  "nan_low_rec =
     \<lparr>r_rows = 3, r_cols = 3,
      r_ent = (\<lambda>u v. if (u, v) = (0, 1) then NaN else NInf)\<rparr>"

definition tied_rec :: recmat where
  "tied_rec =
     \<lparr>r_rows = 3, r_cols = 3,
      r_ent = (\<lambda>u v. if (u, v) = (0, 1) then Fin 0
                      else if (u, v) = (1, 2) then PInf
                      else if (u, v) = (0, 2) then Fin 0
                      else NInf)\<rparr>"

text \<open>Edge lists that contradict the adjacency matrix.\<close>

definition corrupt_pos :: edges where
  "corrupt_pos = [((0, 0), [[(0, 1), (0, 2)]])]"

definition corrupt_neg :: edges where
  "corrupt_neg = [((0, 0), [[(0, 2), (1, 2)]])]"

text \<open>
  A session that refuses any feed whose dropout is not 0, and a feed dictionary as the
  training loop leaves it, with the training dropout rate.
\<close>

definition strict_session :: "recmat \<Rightarrow> feed \<Rightarrow> error + recmat" where
  "strict_session r fd = (if dict_get fd Dropout = Inr (IntVal 0) then Inr r else Inl ExternalError)"

definition training_feed :: feed where
  "training_feed = [(Batch, Tensor 0), (Dropout, FloatVal 0.1), (Batch_edge_type_idx, IntVal 7)]"

section \<open>The training and test loops (lines 357--397)\<close>

text \<open>
  The module-level code drives three collaborators that are not part of main.py and are
  taken as they come: the minibatch iterator, whose state has the type \<open>'it\<close>, the
  TensorFlow session, whose state (the model weights) has the type \<open>'ss\<close>, and
  \<^verbatim>\<open>rank_metrics.apk\<close>; so are the float arithmetic and the interpreter's sort, as
  above. Each method may raise. \<open>mb_update_feed_dict\<close> may change the
  iterator as \<open>mb_next_minibatch_feed_dict\<close> does; \<open>mb_end\<close> and the attributes read
  it only. The index maps and the validation and test edges are attributes the iterator
  sets when it is constructed (line 314).
\<close>

record ('it, 'ss) program =
  mb_shuffle :: "'it \<Rightarrow> error + 'it"
  mb_end :: "'it \<Rightarrow> error + bool"
  mb_next_minibatch_feed_dict :: "'it \<Rightarrow> error + feed \<times> 'it"
  mb_update_feed_dict :: "'it \<Rightarrow> feed \<Rightarrow> feed_value \<Rightarrow> error + feed \<times> 'it"
  mb_current_edge_type_idx :: "'it \<Rightarrow> nat"
  mb_idx2edge_type :: "(nat, edge_type) dict"
  mb_edge_type2idx :: "(edge_type, nat) dict"
  mb_val_edges :: edges
  mb_val_edges_false :: edges
  mb_test_edges :: edges
  mb_test_edges_false :: edges
  sess_train :: "'ss \<Rightarrow> feed \<Rightarrow> error + 'ss"
  sess_predictions :: "'ss \<Rightarrow> feed \<Rightarrow> error + recmat"
  rank_apk :: "nat list \<Rightarrow> nat list \<Rightarrow> nat \<Rightarrow> real"
  np_arith :: float_ops
  py_sorted_nan :: "(npfloat \<times> nat) list \<Rightarrow> (npfloat \<times> nat) list"
  the_adj_mats_orig :: "(nat \<times> nat, npmat list) dict"
  the_num_edge_types :: nat
  flags_epochs :: nat
  flags_dropout :: real

text \<open>
  What the loops have done so far, one event per completed step: a shuffle, a call of
  \<^verbatim>\<open>end()\<close> with its answer, a minibatch drawn and its feed dictionary completed (with
  the iterator's \<^verbatim>\<open>current_edge_type_idx\<close> at that moment), an optimization step, and
  a validation or a test evaluation that has returned: the relation it was run for, the
  session and the global \<^verbatim>\<open>feed_dict\<close> it was called with, and the three metrics it
  returned, which are the numbers that lines 381--384 and 393--396 print.
\<close>

datatype 'ss event =
    Shuffle
  | End bool
  | Draw nat
  | Optimize
  | Validate edge_type 'ss feed "real \<times> real \<times> real"
  | Test nat edge_type 'ss feed "real \<times> real \<times> real"

text \<open>The mutable globals: the iterator, the session, \<^verbatim>\<open>feed_dict\<close>; and the events.\<close>

record ('it, 'ss) state =
  minibatch :: 'it
  sess :: 'ss
  feed_dict :: feed
  trace :: "'ss event list"

definition log_event :: "'ss event \<Rightarrow> ('it, 'ss) state \<Rightarrow> ('it, 'ss) state" where
  "log_event ev st = st\<lparr>trace := trace st @ [ev]\<rparr>"

text \<open>The globals as \<^verbatim>\<open>get_accuracy_scores\<close> finds them when the session is \<open>ss\<close>.\<close>

definition globals_of :: "('it, 'ss) program \<Rightarrow> 'ss \<Rightarrow> eval_globals" where
  "globals_of p ss =
     \<lparr>g_adj_mats_orig = the_adj_mats_orig p,
      g_edge_type2idx = mb_edge_type2idx p,
      g_sess_run = sess_predictions p ss,
      g_apk = rank_apk p,
      g_np = np_arith p,
      g_sorted_nan = py_sorted_nan p\<rparr>"

definition PRINT_PROGRESS_EVERY :: nat where
  "PRINT_PROGRESS_EVERY = 150"

text \<open>
  A call of \<^verbatim>\<open>get_accuracy_scores\<close> from the loops, lines 377--379 and 391--392: the
  relation is looked up in \<^verbatim>\<open>minibatch.idx2edge_type\<close>, the call changes the global
  \<^verbatim>\<open>feed_dict\<close>, and the event is logged when the call returns.
\<close>

definition evaluate ::
  "('it, 'ss) program \<Rightarrow> edges \<Rightarrow> edges \<Rightarrow> nat
     \<Rightarrow> (edge_type \<Rightarrow> 'ss \<Rightarrow> feed \<Rightarrow> real \<times> real \<times> real \<Rightarrow> 'ss event) \<Rightarrow> ('it, 'ss) state
     \<Rightarrow> error option \<times> ('it, 'ss) state" where
  "evaluate p edges_pos edges_neg idx ev st =
     (case dict_get (mb_idx2edge_type p) idx of
        Inl e \<Rightarrow> (Some e, st)
      | Inr et \<Rightarrow>
          (case get_accuracy_scores (globals_of p (sess st)) (feed_dict st) edges_pos edges_neg et of
             (Inl e, fd) \<Rightarrow> (Some e, st\<lparr>feed_dict := fd\<rparr>)
           | (Inr scores, fd) \<Rightarrow>
               (None, log_event (ev et (sess st) (feed_dict st) scores) (st\<lparr>feed_dict := fd\<rparr>))))"

text \<open>The body of the while loop, lines 362--386, for iteration \<open>itr\<close>.\<close>

definition train_step ::
  "('it, 'ss) program \<Rightarrow> nat \<Rightarrow> ('it, 'ss) state \<Rightarrow> error option \<times> ('it, 'ss) state" where
  "train_step p itr st =
     (case mb_next_minibatch_feed_dict p (minibatch st) of
        Inl e \<Rightarrow> (Some e, st)
      | Inr (fd1, it1) \<Rightarrow>
          let st1 = st\<lparr>minibatch := it1, feed_dict := fd1\<rparr> in
          (case mb_update_feed_dict p it1 fd1 (FloatVal (flags_dropout p)) of
             Inl e \<Rightarrow> (Some e, st1)
           | Inr (fd2, it2) \<Rightarrow>
               let st2 = log_event (Draw (mb_current_edge_type_idx p it2))
                           (st1\<lparr>minibatch := it2, feed_dict := fd2\<rparr>) in
               (case sess_train p (sess st2) fd2 of
                  Inl e \<Rightarrow> (Some e, st2)
                | Inr ss \<Rightarrow>
                    let st3 = log_event Optimize (st2\<lparr>sess := ss\<rparr>) in
                    if itr mod PRINT_PROGRESS_EVERY = 0 then
                      evaluate p (mb_val_edges p) (mb_val_edges_false p)
                        (mb_current_edge_type_idx p (minibatch st3)) Validate st3
                    else (None, st3))))"

text \<open>
  The while loop, lines 360--386. Whether it ends is up to the iterator, so it is a
  partial function: \<open>None\<close> is the run that never leaves the loop.
\<close>

partial_function (option) batches ::
  "('it, 'ss) program \<Rightarrow> nat \<Rightarrow> ('it, 'ss) state
     \<Rightarrow> (error option \<times> ('it, 'ss) state) option" where
  "batches p itr st =
     (case mb_end p (minibatch st) of
        Inl e \<Rightarrow> Some (Some e, st)
      | Inr finished \<Rightarrow>
          if finished then Some (None, log_event (End True) st)
          else
            (case train_step p itr (log_event (End False) st) of
               (Some e, st') \<Rightarrow> Some (Some e, st')
             | (None, st') \<Rightarrow> batches p (Suc itr) st'))"

text \<open>The for loop over the epochs, lines 357--386; \<open>n\<close> epochs are still to run.\<close>

fun epochs :: "('it, 'ss) program \<Rightarrow> nat \<Rightarrow> ('it, 'ss) state
     \<Rightarrow> (error option \<times> ('it, 'ss) state) option" where
  "epochs p 0 st = Some (None, st)"
| "epochs p (Suc n) st =
     (case mb_shuffle p (minibatch st) of
        Inl e \<Rightarrow> Some (Some e, st)
      | Inr it' \<Rightarrow>
          (case batches p 0 (log_event Shuffle (st\<lparr>minibatch := it'\<rparr>)) of
             None \<Rightarrow> None
           | Some (Some e, st') \<Rightarrow> Some (Some e, st')
           | Some (None, st') \<Rightarrow> epochs p n st'))"

text \<open>The test loop, lines 390--397, over the relation indices still to test.\<close>

fun tests :: "('it, 'ss) program \<Rightarrow> nat list \<Rightarrow> ('it, 'ss) state
     \<Rightarrow> error option \<times> ('it, 'ss) state" where
  "tests p [] st = (None, st)"
| "tests p (et # rest) st =
     (case evaluate p (mb_test_edges p) (mb_test_edges_false p) et (Test et) st of
        (Some e, st') \<Rightarrow> (Some e, st')
      | (None, st') \<Rightarrow> tests p rest st')"

definition train_and_test ::
  "('it, 'ss) program \<Rightarrow> ('it, 'ss) state \<Rightarrow> (error option \<times> ('it, 'ss) state) option" where
  "train_and_test p st =
     (case epochs p (flags_epochs p) st of
        None \<Rightarrow> None
      | Some (Some e, st') \<Rightarrow> Some (Some e, st')
      | Some (None, st') \<Rightarrow> Some (tests p [0..<the_num_edge_types p] st'))"

subsection \<open>The step sequence as the specification words it\<close>

text \<open>
  The sequence \<^emph>\<open>shuffle, then draw, optimize and periodically evaluate, until
  \<^verbatim>\<open>end()\<close>\<close>, repeated for every epoch and followed by the tests, as an automaton over
  the events. \<open>At_epoch e\<close>: \<open>e\<close> epochs are complete and the next one has not begun;
  \<open>At_head e itr\<close>: inside epoch \<open>e\<close>, before the \<open>itr\<close>-th call of \<^verbatim>\<open>end()\<close>;
  \<open>Testing k\<close>: all epochs are complete and the relations below \<open>k\<close> are tested.
  A validation is accepted only for the relation of the minibatch just drawn and only
  with the metrics that \<^verbatim>\<open>get_accuracy_scores\<close> returns on the validation edges; a test
  only for the next relation index and with the metrics it returns on the test edges.
\<close>

datatype phase =
    At_epoch nat
  | At_head nat nat
  | To_draw nat nat
  | Drawn nat nat nat
  | Optimized nat nat nat
  | Testing nat

definition epoch_done :: "('it, 'ss) program \<Rightarrow> nat \<Rightarrow> phase" where
  "epoch_done p e = (if Suc e = flags_epochs p then Testing 0 else At_epoch (Suc e))"

definition start_phase :: "('it, 'ss) program \<Rightarrow> phase" where
  "start_phase p = (if flags_epochs p = 0 then Testing 0 else At_epoch 0)"

fun next_phase :: "('it, 'ss) program \<Rightarrow> phase \<Rightarrow> 'ss event \<Rightarrow> phase option" where
  "next_phase p (At_epoch e) Shuffle = Some (At_head e 0)"
| "next_phase p (At_head e itr) (End finished) =
     Some (if finished then epoch_done p e else To_draw e itr)"
| "next_phase p (To_draw e itr) (Draw idx) = Some (Drawn e itr idx)"
| "next_phase p (Drawn e itr idx) Optimize =
     Some (if itr mod 150 = 0 then Optimized e itr idx else At_head e (Suc itr))"
| "next_phase p (Optimized e itr idx) (Validate et ss fd scores) =
     (if dict_get (mb_idx2edge_type p) idx = Inr et
         \<and> fst (get_accuracy_scores (globals_of p ss) fd
                  (mb_val_edges p) (mb_val_edges_false p) et) = Inr scores
      then Some (At_head e (Suc itr)) else None)"
| "next_phase p (Testing k) (Test k' et ss fd scores) =
     (if k' = k \<and> k < the_num_edge_types p \<and> dict_get (mb_idx2edge_type p) k = Inr et
         \<and> fst (get_accuracy_scores (globals_of p ss) fd
                  (mb_test_edges p) (mb_test_edges_false p) et) = Inr scores
      then Some (Testing (Suc k)) else None)"
| "next_phase p _ _ = None"

fun follow :: "('it, 'ss) program \<Rightarrow> phase \<Rightarrow> 'ss event list \<Rightarrow> phase option" where
  "follow p ph [] = Some ph"
| "follow p ph (ev # evs) =
     (case next_phase p ph ev of None \<Rightarrow> None | Some ph' \<Rightarrow> follow p ph' evs)"

text \<open>The phase in which \<open>k\<close> epochs are complete.\<close>

definition done_phase :: "('it, 'ss) program \<Rightarrow> nat \<Rightarrow> phase" where
  "done_phase p k = (if k = flags_epochs p then Testing 0 else At_epoch k)"

subsection \<open>What the loops need of their collaborators\<close>

text \<open>
  An evaluation of the relation with index \<open>idx\<close> on the given edges raises nothing,
  whatever the session and the feed dictionary are.
\<close>

definition evaluation_returns :: "('it, 'ss) program \<Rightarrow> edges \<Rightarrow> edges \<Rightarrow> nat \<Rightarrow> bool" where
  "evaluation_returns p edges_pos edges_neg idx =
     (\<exists>et. dict_get (mb_idx2edge_type p) idx = Inr et
        \<and> (\<forall>ss fd. \<not> isl (fst (get_accuracy_scores (globals_of p ss) fd edges_pos edges_neg et))))"

text \<open>
  No collaborator raises: not the iterator, not the optimization step, not a validation
  of a relation the iterator can be at, and not the test of a relation index below
  \<^verbatim>\<open>num_edge_types\<close>.
\<close>

definition never_raises :: "('it, 'ss) program \<Rightarrow> bool" where
  "never_raises p =
     ((\<forall>it. \<not> isl (mb_shuffle p it) \<and> \<not> isl (mb_end p it)
            \<and> \<not> isl (mb_next_minibatch_feed_dict p it)
            \<and> evaluation_returns p (mb_val_edges p) (mb_val_edges_false p)
                  (mb_current_edge_type_idx p it))
      \<and> (\<forall>it fd. \<not> isl (mb_update_feed_dict p it fd (FloatVal (flags_dropout p))))
      \<and> (\<forall>ss fd. \<not> isl (sess_train p ss fd))
      \<and> (\<forall>k < the_num_edge_types p.
            evaluation_returns p (mb_test_edges p) (mb_test_edges_false p) k))"

subsection \<open>An example run\<close>

text \<open>
  An iterator that hands out two minibatches per epoch (its state is the number of
  minibatches left), always of relation 0, the example relation above; a session whose
  optimization step changes nothing and whose predictions are the separated scores; two
  epochs and one relation.
\<close>

definition example_program :: "(nat, unit) program" where
  "example_program =
     \<lparr>mb_shuffle = (\<lambda>left. Inr 2),
      mb_end = (\<lambda>left. Inr (left = 0)),
      mb_next_minibatch_feed_dict = (\<lambda>left. Inr ([(Batch, Tensor left)], left - 1)),
      mb_update_feed_dict = (\<lambda>left fd dropout. Inr (dict_set fd Dropout dropout, left)),
      mb_current_edge_type_idx = (\<lambda>left. 0),
      mb_idx2edge_type = [(0, (0, 0, 0))],
      mb_edge_type2idx = [((0, 0, 0), 0)],
      mb_val_edges = example_pos,
      mb_val_edges_false = example_neg,
      mb_test_edges = example_pos,
      mb_test_edges_false = example_neg,
      sess_train = (\<lambda>ss fd. Inr ss),
      sess_predictions = (\<lambda>ss fd. Inr separated_rec),
      rank_apk = apk_at_k,
      np_arith = exact_arith,
      py_sorted_nan = (\<lambda>xs. xs),
      the_adj_mats_orig = [((0, 0), [example_adj])],
      the_num_edge_types = 1,
      flags_epochs = 2,
      flags_dropout = 0.1\<rparr>"

definition example_start :: "(nat, unit) state" where
  "example_start = \<lparr>minibatch = 0, sess = (), feed_dict = [], trace = []\<rparr>"

text \<open>
  The feed dictionaries of the first and of the second minibatch of an epoch, as
  \<^verbatim>\<open>update_feed_dict\<close> leaves them.
\<close>

definition first_feed :: feed where
  "first_feed = [(Batch, Tensor 2), (Dropout, FloatVal 0.1)]"

definition second_feed :: feed where
  "second_feed = [(Batch, Tensor 1), (Dropout, FloatVal 0.1)]"

section \<open>The edge split partitioner\<close>

text \<open>
  Modelled from the spec: the Edge Split Partitioner is code of the repository (it is
  part of \<^verbatim>\<open>decagon.deep.minibatch.EdgeMinibatchIterator\<close>, which main.py constructs in
  line 314) that is not among the sources. The definitions below follow section 4.2 of
  the specification step by step. What the seed determines is taken as given: the
  permutation \<open>shuffle_edges\<close> that the seeded shuffle applies, and the stream
  \<open>random_draw\<close> of numbers that the seeded generator hands to the negative sampler.
\<close>

datatype partition_error = SamplingExhaustedError

record partitioner =
  shuffle_edges :: "(nat \<times> nat) list \<Rightarrow> (nat \<times> nat) list"
  random_draw :: "nat \<Rightarrow> nat"
  held_out_fraction :: real
  retry_bound :: nat

text \<open>
  Modelled from the spec, step 1: all edges where \<open>adj[u,v] = 1\<close>, the pairs with
  \<open>u < v\<close> only for a symmetric node-type pair, every pair otherwise.
\<close>

definition all_pairs :: "nat \<Rightarrow> nat \<Rightarrow> (nat \<times> nat) list" where
  "all_pairs r c = concat (map (\<lambda>u. map (\<lambda>v. (u, v)) [0..<c]) [0..<r])"

definition extract_edges :: "bool \<Rightarrow> npmat \<Rightarrow> (nat \<times> nat) list" where
  "extract_edges symmetric adj =
     filter (\<lambda>(u, v). ent adj u v = 1 \<and> (if symmetric then u < v else True))
       (all_pairs (nrows adj) (ncols adj))"

text \<open>
  Modelled from the spec, step 4: one negative pair by rejection sampling. A random pair
  within the bounds of the matrix is picked and accepted only if \<open>adj[u,v] = 0\<close> and the
  pair is not yet in the negative set of this split; after \<open>retry_bound\<close> rejected picks
  the draw fails with \<open>SamplingExhaustedError\<close>. \<open>k\<close> counts the numbers taken from the
  generator.
\<close>

fun draw_negative ::
  "npmat \<Rightarrow> (nat \<Rightarrow> nat) \<Rightarrow> nat \<Rightarrow> nat \<Rightarrow> (nat \<times> nat) list
     \<Rightarrow> partition_error + (nat \<times> nat) \<times> nat" where
  "draw_negative adj draw 0 k selected = Inl SamplingExhaustedError"
| "draw_negative adj draw (Suc retries) k selected =
     (let u = draw k mod nrows adj; v = draw (Suc k) mod ncols adj
      in if 0 < nrows adj \<and> 0 < ncols adj \<and> ent adj u v = 0 \<and> (u, v) \<notin> set selected
         then Inr ((u, v), k + 2)
         else draw_negative adj draw retries (k + 2) selected)"

text \<open>Modelled from the spec, step 4: as many negatives as the split has positives.\<close>

fun sample_negatives ::
  "npmat \<Rightarrow> (nat \<Rightarrow> nat) \<Rightarrow> nat \<Rightarrow> nat \<Rightarrow> nat \<Rightarrow> (nat \<times> nat) list
     \<Rightarrow> partition_error + (nat \<times> nat) list \<times> nat" where
  "sample_negatives adj draw bound 0 k selected = Inr (selected, k)"
| "sample_negatives adj draw bound (Suc n) k selected =
     (case draw_negative adj draw bound k selected of
        Inl e \<Rightarrow> Inl e
      | Inr (pair, k') \<Rightarrow> sample_negatives adj draw bound n k' (selected @ [pair]))"

record edge_split =
  train_edges :: "(nat \<times> nat) list"
  val_edges :: "(nat \<times> nat) list"
  test_edges :: "(nat \<times> nat) list"
  train_edges_false :: "(nat \<times> nat) list"
  val_edges_false :: "(nat \<times> nat) list"
  test_edges_false :: "(nat \<times> nat) list"

text \<open>
  Modelled from the spec, steps 2 to 4 for one relation: the shuffled edges are cut into
  \<open>n_val = floor(f * |edges|)\<close> validation edges, as many test edges, and the remaining
  training edges (no edge is excluded), and each split gets its negatives.
\<close>

definition partition_relation ::
  "partitioner \<Rightarrow> bool \<Rightarrow> npmat \<Rightarrow> partition_error + edge_split" where
  "partition_relation P symmetric adj =
     (let edges = extract_edges symmetric adj;
          shuffled = shuffle_edges P edges;
          n_val = nat \<lfloor>held_out_fraction P * real (length edges)\<rfloor>;
          n_test = nat \<lfloor>held_out_fraction P * real (length edges)\<rfloor>;
          val = take n_val shuffled;
          test = take n_test (drop n_val shuffled);
          train = drop (n_val + n_test) shuffled
      in case sample_negatives adj (random_draw P) (retry_bound P) (length train) 0 [] of
           Inl e \<Rightarrow> Inl e
         | Inr (train_false, k1) \<Rightarrow>
        (case sample_negatives adj (random_draw P) (retry_bound P) (length val) k1 [] of
           Inl e \<Rightarrow> Inl e
         | Inr (val_false, k2) \<Rightarrow>
        (case sample_negatives adj (random_draw P) (retry_bound P) (length test) k2 [] of
           Inl e \<Rightarrow> Inl e
         | Inr (test_false, k3) \<Rightarrow>
             Inr \<lparr>train_edges = train, val_edges = val, test_edges = test,
                  train_edges_false = train_false, val_edges_false = val_false,
                  test_edges_false = test_false\<rparr>)))"

subsection \<open>An example split\<close>

text \<open>
  A relation on three nodes with four edges; a quarter of the edges is held out for
  validation and a quarter for testing; the shuffle reverses the list and the generator
  counts upwards in steps of a half, so that the picks are \<open>(0,0)\<close>, \<open>(1,1)\<close>,
  \<open>(2,2)\<close>, \<open>(0,0)\<close>, ...
\<close>

definition split_adj :: npmat where
  "split_adj =
     \<lparr>nrows = 3, ncols = 3,
      ent = (\<lambda>u v. if (u, v) \<in> {(0, 1), (1, 2), (2, 0), (0, 2)} then 1 else 0)\<rparr>"

definition split_partitioner :: partitioner where
  "split_partitioner =
     \<lparr>shuffle_edges = rev, random_draw = (\<lambda>k. k div 2), held_out_fraction = 1 / 4,
      retry_bound = 10\<rparr>"

section \<open>Properties of load_decagon_data\<close>

lemmas tiny_defs = load_decagon_data_def real_branch_def tiny_world_def Let_def and_then_def
      all_drugs_of_def drug2idx_of_def unique_se_of_def set_add_def dict_set_def dict_has_def
      enumerate_py_def real_gene_drug_def real_se_mat_def dict_get_def mat_set_def zeros_def
      mat_put_def assemble_def

lemma mat_T_get: "mat_get (mat_T m) u v = mat_get m v u"
  by (auto simp: mat_get_def mat_T_def)

lemma load_shape:
  assumes "load_decagon_data w use_dummy = Inr d"
  shows "\<exists>b. d = assemble b \<and> drug_gene_adj b = mat_T (gene_drug_adj b)
     \<and> gene_degrees b = col_sums (gene_adj b)
     \<and> drug_degrees_list b = map col_sums (drug_drug_adj_list b)"
  using assms
  by (auto simp: load_decagon_data_def dummy_branch_def real_branch_def and_then_def Let_def
           split: if_splits sum.splits)

lemma tiny_loads: "load_decagon_data tiny_world False = Inr tiny_data"
  by (simp add: tiny_data_def tiny_defs)

lemma mat_T_shape: "nrows (mat_T m) = ncols m" "ncols (mat_T m) = nrows m"
  by (simp_all add: mat_T_def)

lemma store_layout:
  assumes "load_decagon_data w use_dummy = Inr d"
  shows "map fst (adj_mats_orig d) = [(0, 0), (0, 1), (1, 0), (1, 1)]
    \<and> length (rel_mats d (0, 0)) = 2
    \<and> rel_mats d (0, 0) ! 1 = mat_T (rel_mats d (0, 0) ! 0)
    \<and> length (rel_mats d (0, 1)) = 1
    \<and> length (rel_mats d (1, 0)) = 1
    \<and> rel_mats d (1, 0) ! 0 = mat_T (rel_mats d (0, 1) ! 0)
    \<and> even (length (rel_mats d (1, 1)))
    \<and> (\<forall>k < length (rel_mats d (1, 1)) div 2.
          rel_mats d (1, 1) ! (k + length (rel_mats d (1, 1)) div 2)
            = mat_T (rel_mats d (1, 1) ! k))"
proof -
  from load_shape [OF assms] obtain b where d: "d = assemble b"
    and gd: "drug_gene_adj b = mat_T (gene_drug_adj b)" by blast
  show ?thesis
    by (simp add: d gd assemble_def rel_mats_def Let_def nth_append)
qed

lemma skew_loads: "load_decagon_data skew_world False = Inr skew_data"
  by (simp add: skew_data_def skew_world_def tiny_defs)

text \<open>
  Claim C7. In the adjacency store that \<^verbatim>\<open>load_decagon_data\<close> returns (either branch),
  the keys are the four node-type pairs; \<open>(0,0)\<close> holds two matrices, \<open>(1,1)\<close> holds
  \<open>2L\<close> matrices, \<open>(0,1)\<close> and \<open>(1,0)\<close> one each. Entry 1 of \<open>(0,0)\<close> is the
  transpose of entry 0, entry \<open>k + L\<close> of \<open>(1,1)\<close> is the transpose of entry \<open>k\<close> for
  every \<open>k < L\<close>, and the matrix of \<open>(1,0)\<close> is the transpose of the matrix of
  \<open>(0,1)\<close>: the shape is the other's shape swapped, and reading it at \<open>[u, v]\<close> gives
  what reading the other at \<open>[v, u]\<close> gives (the same number, or \<open>IndexError\<close> for
  both).
\<close>

theorem adj_store_transposes:
  assumes "load_decagon_data w use_dummy = Inr d"
  shows "map fst (adj_mats_orig d) = [(0, 0), (0, 1), (1, 0), (1, 1)]
    \<and> length (rel_mats d (0, 0)) = 2
    \<and> shape (rel_mats d (0, 0) ! 1)
        = (ncols (rel_mats d (0, 0) ! 0), nrows (rel_mats d (0, 0) ! 0))
    \<and> (\<forall>u v. mat_get (rel_mats d (0, 0) ! 1) u v = mat_get (rel_mats d (0, 0) ! 0) v u)
    \<and> length (rel_mats d (0, 1)) = 1
    \<and> length (rel_mats d (1, 0)) = 1
    \<and> shape (rel_mats d (1, 0) ! 0)
        = (ncols (rel_mats d (0, 1) ! 0), nrows (rel_mats d (0, 1) ! 0))
    \<and> (\<forall>u v. mat_get (rel_mats d (1, 0) ! 0) u v = mat_get (rel_mats d (0, 1) ! 0) v u)
    \<and> even (length (rel_mats d (1, 1)))
    \<and> (\<forall>k < length (rel_mats d (1, 1)) div 2.
          shape (rel_mats d (1, 1) ! (k + length (rel_mats d (1, 1)) div 2))
            = (ncols (rel_mats d (1, 1) ! k), nrows (rel_mats d (1, 1) ! k))
          \<and> (\<forall>u v. mat_get (rel_mats d (1, 1) ! (k + length (rel_mats d (1, 1)) div 2)) u v
                    = mat_get (rel_mats d (1, 1) ! k) v u))"
  using store_layout [OF assms]
  by (simp add: mat_T_get mat_T_shape shape_def)

text \<open>
  Witness for C7: a data set in which drug \<open>d2\<close> targets gene \<open>g0\<close>. The gene-drug
  matrix is 2 by 3 with its one at \<open>[0, 2]\<close>; the drug-gene matrix is 3 by 2 with its
  one at \<open>[2, 0]\<close>, and \<open>[0, 2]\<close> lies outside it. The drug-drug list has four
  entries, and entries 2 and 3 hold at \<open>[v, u]\<close> the ones that entries 0 and 1 hold at
  \<open>[u, v]\<close>.
\<close>

theorem adj_store_transposes_witness:
  "load_decagon_data skew_world False = Inr skew_data
    \<and> shape (rel_mats skew_data (0, 1) ! 0) = (2, 3)
    \<and> shape (rel_mats skew_data (1, 0) ! 0) = (3, 2)
    \<and> mat_get (rel_mats skew_data (0, 1) ! 0) 0 2 = Inr 1
    \<and> mat_get (rel_mats skew_data (1, 0) ! 0) 2 0 = Inr 1
    \<and> mat_get (rel_mats skew_data (0, 1) ! 0) 2 0 = Inl IndexError
    \<and> mat_get (rel_mats skew_data (1, 0) ! 0) 0 2 = Inl IndexError
    \<and> length (rel_mats skew_data (1, 1)) = 4
    \<and> mat_get (rel_mats skew_data (1, 1) ! 0) 0 1 = Inr 1
    \<and> mat_get (rel_mats skew_data (1, 1) ! 2) 1 0 = Inr 1
    \<and> mat_get (rel_mats skew_data (1, 1) ! 1) 1 2 = Inr 1
    \<and> mat_get (rel_mats skew_data (1, 1) ! 3) 2 1 = Inr 1"
proof -
  have gd: "rel_mats skew_data (0, 1) ! 0
      = \<lparr>nrows = 2, ncols = 3, ent = (\<lambda>_ _. 0)(0 := (\<lambda>_. 0)(Suc (Suc 0) := 1))\<rparr>"
    by (simp add: skew_data_def skew_world_def tiny_defs rel_mats_def)
  have a: "shape (rel_mats skew_data (0, 1) ! 0) = (2, 3)"
    "mat_get (rel_mats skew_data (0, 1) ! 0) 0 2 = Inr 1"
    "mat_get (rel_mats skew_data (0, 1) ! 0) 2 0 = Inl IndexError"
    unfolding gd by (simp_all add: shape_def mat_get_def numeral_2_eq_2)
  have len: "length (rel_mats skew_data (1, 1)) = 4"
    by (simp add: skew_data_def skew_world_def tiny_defs rel_mats_def)
  have d0: "mat_get (rel_mats skew_data (1, 1) ! 0) 0 1 = Inr 1"
    by (simp add: skew_data_def skew_world_def tiny_defs rel_mats_def mat_get_def)
  have d1: "mat_get (rel_mats skew_data (1, 1) ! 1) 1 2 = Inr 1"
    by (simp add: skew_data_def skew_world_def tiny_defs rel_mats_def mat_get_def)
  note t = adj_store_transposes [OF skew_loads]
  from t have s: "shape (rel_mats skew_data (1, 0) ! 0)
      = (ncols (rel_mats skew_data (0, 1) ! 0), nrows (rel_mats skew_data (0, 1) ! 0))"
    by blast
  from t have g: "\<forall>u v. mat_get (rel_mats skew_data (1, 0) ! 0) u v
        = mat_get (rel_mats skew_data (0, 1) ! 0) v u"
    by blast
  from t have "\<forall>k < length (rel_mats skew_data (1, 1)) div 2. \<forall>u v.
      mat_get (rel_mats skew_data (1, 1) ! (k + length (rel_mats skew_data (1, 1)) div 2)) u v
        = mat_get (rel_mats skew_data (1, 1) ! k) v u"
    by blast
  then have k: "\<forall>k < 2. \<forall>u v. mat_get (rel_mats skew_data (1, 1) ! (k + 2)) u v
        = mat_get (rel_mats skew_data (1, 1) ! k) v u"
    unfolding len by simp
  have z: "(0::nat) < 2" "(1::nat) < 2" by simp_all
  have b1: "shape (rel_mats skew_data (1, 0) ! 0) = (3, 2)"
    unfolding s using a(1) by (simp add: shape_def)
  have b2: "mat_get (rel_mats skew_data (1, 0) ! 0) 2 0 = Inr 1"
    unfolding g [rule_format] by (rule a(2))
  have b3: "mat_get (rel_mats skew_data (1, 0) ! 0) 0 2 = Inl IndexError"
    unfolding g [rule_format] by (rule a(3))
  have "mat_get (rel_mats skew_data (1, 1) ! (0 + 2)) 1 0 = Inr 1"
    "mat_get (rel_mats skew_data (1, 1) ! (1 + 2)) 2 1 = Inr 1"
    by (simp_all only: k [rule_format, OF z(1)] k [rule_format, OF z(2)] d0 d1)
  then have c: "mat_get (rel_mats skew_data (1, 1) ! 2) 1 0 = Inr 1"
    "mat_get (rel_mats skew_data (1, 1) ! 3) 2 1 = Inr 1"
    by (simp_all add: numeral_2_eq_2 numeral_3_eq_3)
  show ?thesis
    by (intro conjI) (rule skew_loads a b1 b2 b3 len d0 d1 c)+
qed

text \<open>
  Claim C6 as stated fails. On the small data set \<^verbatim>\<open>degrees[1]\<close> is a list of four
  vectors, one per entry of \<^verbatim>\<open>adj_mats_orig[(1, 1)]\<close>, and none of them is the vector
  of degrees summed over the relations that touch the drugs.
\<close>

theorem degrees_aggregated_counterexample:
  "exposed_degrees tiny_world False 1 = Inr [[1, 1, 0], [0, 1, 1], [1, 1, 0], [0, 1, 1]]
   \<and> claimed_degrees tiny_world False 1 = Inr [4, 4, 2]"
  by (simp add: exposed_degrees_def claimed_degrees_def tiny_defs degree_vectors_def
     aggregated_degrees_def col_sums_def node_count_def incident_edges_def col_sum_def row_sum_def
     mat_T_def)

text \<open>
  Claim C6 as amended. \<^verbatim>\<open>degrees\<close> has the keys 0 and 1. \<^verbatim>\<open>degrees[0]\<close> is the
  vector of column sums of the gene-gene matrix, twice. \<^verbatim>\<open>degrees[1]\<close> has one vector
  per entry of \<^verbatim>\<open>adj_mats_orig[(1, 1)]\<close>: with \<open>L\<close> base relations, entries \<open>k\<close> and
  \<open>k + L\<close> are both the column sums of base relation \<open>k\<close> alone. Nothing is summed
  across relations and the gene-drug matrices are not counted.
\<close>

theorem degrees_per_relation:
  assumes "load_decagon_data w use_dummy = Inr d"
  shows "map fst (degrees d) = [0, 1]
    \<and> degree_vectors d 0 = [col_sums (rel_mats d (0, 0) ! 0), col_sums (rel_mats d (0, 0) ! 0)]
    \<and> length (degree_vectors d 1) = length (rel_mats d (1, 1))
    \<and> (\<forall>k < length (rel_mats d (1, 1)) div 2.
          degree_vectors d 1 ! k = col_sums (rel_mats d (1, 1) ! k)
        \<and> degree_vectors d 1 ! (k + length (rel_mats d (1, 1)) div 2)
            = col_sums (rel_mats d (1, 1) ! k))"
proof -
  from load_shape [OF assms] obtain b where d: "d = assemble b"
    and gg: "gene_degrees b = col_sums (gene_adj b)"
    and dd: "drug_degrees_list b = map col_sums (drug_drug_adj_list b)" by blast
  show ?thesis
    by (simp add: d gg dd assemble_def rel_mats_def degree_vectors_def Let_def nth_append)
qed

text \<open>Witness for the amended C6 on the small data set, at \<open>k = 0\<close> and \<open>k = 1\<close>.\<close>

theorem degrees_per_relation_witness:
  "load_decagon_data tiny_world False = Inr tiny_data
    \<and> length (rel_mats tiny_data (1, 1)) = 4
    \<and> degree_vectors tiny_data 0
        = [col_sums (rel_mats tiny_data (0, 0) ! 0), col_sums (rel_mats tiny_data (0, 0) ! 0)]
    \<and> degree_vectors tiny_data 1 ! 0 = col_sums (rel_mats tiny_data (1, 1) ! 0)
    \<and> degree_vectors tiny_data 1 ! 2 = col_sums (rel_mats tiny_data (1, 1) ! 0)
    \<and> degree_vectors tiny_data 1 ! 1 = col_sums (rel_mats tiny_data (1, 1) ! 1)
    \<and> degree_vectors tiny_data 1 ! 3 = col_sums (rel_mats tiny_data (1, 1) ! 1)"
proof -
  have len: "length (rel_mats tiny_data (1, 1)) = 4"
    by (simp add: tiny_data_def tiny_defs rel_mats_def)
  from degrees_per_relation [OF tiny_loads] len
  have all: "\<forall>k<2. degree_vectors tiny_data 1 ! k = col_sums (rel_mats tiny_data (1, 1) ! k)
        \<and> degree_vectors tiny_data 1 ! (k + 2) = col_sums (rel_mats tiny_data (1, 1) ! k)"
    and zero: "degree_vectors tiny_data 0
        = [col_sums (rel_mats tiny_data (0, 0) ! 0), col_sums (rel_mats tiny_data (0, 0) ! 0)]"
    by simp_all
  from all have "degree_vectors tiny_data 1 ! 0 = col_sums (rel_mats tiny_data (1, 1) ! 0)
        \<and> degree_vectors tiny_data 1 ! (0 + 2) = col_sums (rel_mats tiny_data (1, 1) ! 0)"
    and "degree_vectors tiny_data 1 ! 1 = col_sums (rel_mats tiny_data (1, 1) ! 1)
        \<and> degree_vectors tiny_data 1 ! (1 + 2) = col_sums (rel_mats tiny_data (1, 1) ! 1)"
    by simp_all
  with tiny_loads len zero show ?thesis by (simp add: numeral_2_eq_2 numeral_3_eq_3)
qed

subsection \<open>The dummy data and the unseeded generator\<close>

lemma fill_pairs_never: "fill_pairs (\<lambda>_. 1000) ps c m = (m, c + length ps)"
  by (induction ps arbitrary: c m) auto

lemma fill_pairs_always:
  "(a, b) \<in> set ps \<or> ent m a b = 1 \<Longrightarrow> ent (fst (fill_pairs (\<lambda>_. 0) ps c m)) a b = 1"
proof (induction ps arbitrary: c m)
  case Nil
  then show ?case by simp
next
  case (Cons p ps)
  obtain d1 d2 where p: "p = (d1, d2)" by (cases p)
  let ?m' = "mat_put (mat_put m d2 d1 1) d1 d2 1"
  have "(a, b) \<in> set ps \<or> ent ?m' a b = 1"
    using Cons.prems by (auto simp: p mat_put_def)
  from Cons.IH [OF this] show ?case by (simp add: p)
qed

lemma fill_pairs_shape:
  "nrows (fst (fill_pairs rnd ps c m)) = nrows m \<and> ncols (fst (fill_pairs rnd ps c m)) = ncols m"
  by (induction ps arbitrary: c m) (auto simp: mat_put_def)

lemma set_combinations2: "set (combinations2 n) = {(i, j). i < j \<and> j < n}"
  by (fastforce simp: combinations2_def)

lemma hd_dummy_drug_drug:
  "0 < k \<Longrightarrow> hd (dummy_drug_drug rnd n k c) = fst (fill_pairs rnd (combinations2 n) c (zeros n n))"
  by (cases k) (auto split: prod.splits)

lemma length_dummy_drug_drug: "length (dummy_drug_drug rnd n k c) = k"
  by (induction k arbitrary: c) (auto split: prod.splits)

lemma first_pair_dummy:
  "first_drug_pair (load_decagon_data w True)
     = Inr (ent (fst (fill_pairs (py_randint w) (combinations2 645) 0 (zeros 645 645))) 0 1)"
proof -
  let ?L = "dummy_drug_drug (py_randint w) 645 1317 0"
  have len: "length ?L = 1317" by (rule length_dummy_drug_drug)
  have hd: "hd ?L = fst (fill_pairs (py_randint w) (combinations2 645) 0 (zeros 645 645))"
    by (rule hd_dummy_drug_drug) simp
  have ne: "?L \<noteq> []" using len by auto
  have nth0: "(?L @ map mat_T ?L) ! 0 = hd ?L"
    using len by (cases ?L) auto
  show ?thesis
    unfolding first_drug_pair_def load_decagon_data_def
    using nth0 hd ne
    by (simp add: and_then_def assemble_def dummy_branch_def Let_def dict_get_def list_get_def
          len mat_get_def fill_pairs_shape zeros_def)
qed

text \<open>
  Claim C8 fails on the dummy data. Two runs of \<^verbatim>\<open>load_decagon_data(use_dummy=True)\<close>
  that agree on everything the program seeds (the planted graph, numpy's stream after
  \<^verbatim>\<open>np.random.seed(0)\<close>) and differ only in the stream of Python's \<^verbatim>\<open>random\<close>
  module, which line 73 draws from and nothing seeds, build different drug-drug
  matrices: entry \<open>(0, 1)\<close> of the first relation is 1 in one run and 0 in the other.
\<close>

theorem dummy_data_not_reproducible:
  "first_drug_pair (load_decagon_data (w\<lparr>py_randint := (\<lambda>_. 0)\<rparr>) True) = Inr 1
 \<and> first_drug_pair (load_decagon_data (w\<lparr>py_randint := (\<lambda>_. 1000)\<rparr>) True) = Inr 0"
  by (simp add: first_pair_dummy fill_pairs_never fill_pairs_always set_combinations2 zeros_def)

section \<open>Properties of get_accuracy_scores\<close>

subsection \<open>The two loops\<close>

lemma and_then_simps [simp]:
  "and_then (Inl e) f = Inl e" "and_then (Inr x) f = f x"
  by (simp_all add: and_then_def)

lemma isl_and_then: "isl r \<Longrightarrow> isl (and_then r f)"
  by (cases r) simp_all

lemma pos_step_bad:
  "adj_lookup g et u v \<noteq> Inr 1 \<Longrightarrow> isl (pos_step g r et (u, v) s)"
  by (cases "rec_get r u v"; cases "adj_lookup g et u v") (auto simp: pos_step_def Let_def)

lemma neg_step_bad:
  "adj_lookup g et u v \<noteq> Inr 0 \<Longrightarrow> isl (neg_step g r et (u, v) s)"
  by (cases "rec_get r u v"; cases "adj_lookup g et u v") (auto simp: neg_step_def Let_def)

lemma fold_err_bad:
  assumes "x \<in> set xs" and "\<And>s. isl (f x s)"
  shows "isl (fold_err f xs s)"
  using assms(1)
proof (induction xs arbitrary: s)
  case Nil
  then show ?case by simp
next
  case (Cons y ys)
  show ?case
  proof (cases "f y s")
    case (Inl e)
    then show ?thesis by simp
  next
    case (Inr s')
    with Cons assms(2) [of s] show ?thesis by auto
  qed
qed

lemma pos_step_ok:
  "u < r_rows r \<Longrightarrow> v < r_cols r \<Longrightarrow> adj_lookup g et u v = Inr 1 \<Longrightarrow>
   pos_step g r et (u, v) s =
     Inr (s\<lparr>preds := preds s @ [edge_score g r (u, v)],
            actual := actual s @ [edge_ind s],
            predicted := predicted s @ [(edge_score g r (u, v), edge_ind s)],
            edge_ind := edge_ind s + 1\<rparr>)"
  by (simp add: pos_step_def rec_get_def edge_score_def Let_def)

lemma neg_step_ok:
  "u < r_rows r \<Longrightarrow> v < r_cols r \<Longrightarrow> adj_lookup g et u v = Inr 0 \<Longrightarrow>
   neg_step g r et (u, v) s =
     Inr (s\<lparr>preds_neg := preds_neg s @ [edge_score g r (u, v)],
            predicted := predicted s @ [(edge_score g r (u, v), edge_ind s)],
            edge_ind := edge_ind s + 1\<rparr>)"
  by (simp add: neg_step_def rec_get_def edge_score_def Let_def)

lemma upt_add_Suc: "[i..<i + Suc n] = i # [Suc i..<Suc i + n]"
  by (subst upt_conv_Cons) simp_all

lemma fold_pos_ok:
  "edges_ok g r et 1 es \<Longrightarrow>
   fold_err (pos_step g r et) es s =
     Inr (s\<lparr>preds := preds s @ map (edge_score g r) es,
            actual := actual s @ [edge_ind s..<edge_ind s + length es],
            predicted := predicted s @ zip (map (edge_score g r) es) [edge_ind s..<edge_ind s + length es],
            edge_ind := edge_ind s + length es\<rparr>)"
proof (induction es arbitrary: s)
  case Nil
  then show ?case by simp
next
  case (Cons e es)
  obtain u v where e: "e = (u, v)" by (cases e)
  from Cons.prems have ok: "u < r_rows r" "v < r_cols r" "adj_lookup g et u v = Inr 1"
    and rest: "edges_ok g r et 1 es"
    by (auto simp: edges_ok_def e)
  have up: "[edge_ind s..<edge_ind s + length (e # es)]
      = edge_ind s # [Suc (edge_ind s)..<Suc (edge_ind s) + length es]"
    using upt_add_Suc [of "edge_ind s" "length es"] by simp
  show ?case
    unfolding up by (simp add: e pos_step_ok [OF ok] Cons.IH [OF rest])
qed

lemma fold_neg_ok:
  "edges_ok g r et 0 es \<Longrightarrow>
   fold_err (neg_step g r et) es s =
     Inr (s\<lparr>preds_neg := preds_neg s @ map (edge_score g r) es,
            predicted := predicted s @ zip (map (edge_score g r) es) [edge_ind s..<edge_ind s + length es],
            edge_ind := edge_ind s + length es\<rparr>)"
proof (induction es arbitrary: s)
  case Nil
  then show ?case by simp
next
  case (Cons e es)
  obtain u v where e: "e = (u, v)" by (cases e)
  from Cons.prems have ok: "u < r_rows r" "v < r_cols r" "adj_lookup g et u v = Inr 0"
    and rest: "edges_ok g r et 0 es"
    by (auto simp: edges_ok_def e)
  have up: "[edge_ind s..<edge_ind s + length (e # es)]
      = edge_ind s # [Suc (edge_ind s)..<Suc (edge_ind s) + length es]"
    using upt_add_Suc [of "edge_ind s" "length es"] by simp
  show ?case
    unfolding up by (simp add: e neg_step_ok [OF ok] Cons.IH [OF rest])
qed

lemma score_edges_ok:
  assumes "edge_list edges_pos et = Inr pos" "edge_list edges_neg et = Inr neg"
    "edges_ok g r et 1 pos" "edges_ok g r et 0 neg"
  shows "score_edges g r edges_pos edges_neg et =
     Inr \<lparr>preds = map (edge_score g r) pos, preds_neg = map (edge_score g r) neg,
          actual = [0..<length pos],
          predicted = zip (pooled_scores g r pos neg) [0..<length pos + length neg],
          edge_ind = length pos + length neg\<rparr>"
proof -
  have "[0..<length pos + length neg] = [0..<length pos] @ [length pos..<length pos + length neg]"
    by (metis le_add1 upt_add_eq_append zero_le)
  then show ?thesis
    by (simp add: score_edges_def assms fold_pos_ok fold_neg_ok pooled_scores_def)
qed


lemma remdups_two_classes:
  "0 < n \<Longrightarrow> 0 < m \<Longrightarrow> remdups (replicate n (1::real) @ replicate m 0) = [1, 0]"
proof (induction n)
  case 0
  then show ?case by simp
next
  case (Suc n)
  have z: "remdups (replicate m (0::real)) = [0]" using Suc.prems(2)
    by (induction m) auto
  show ?case
  proof (cases "n = 0")
    case True
    with Suc.prems z show ?thesis by simp
  next
    case False
    with Suc show ?thesis by simp
  qed
qed

lemma get_accuracy_scores_result:
  assumes "reaches_metrics g fd edges_pos edges_neg et r pos neg" "pos \<noteq> []" "neg \<noteq> []"
  shows "fst (get_accuracy_scores g fd edges_pos edges_neg et) =
     Inr (trapz (roc_curve (replicate (length pos) 1 @ replicate (length neg) 0)
                   (map (nan_to_num (g_np g)) (pooled_scores g r pos neg))),
          average_precision_score (replicate (length pos) 1 @ replicate (length neg) 0)
            (map (nan_to_num (g_np g)) (pooled_scores g r pos neg)),
          g_apk g [0..<length pos]
            (map snd (sorted_reverse (g_sorted_nan g)
               (zip (pooled_scores g r pos neg) [0..<length pos + length neg]))) 50)"
proof -
  from assms(1) obtain idx where idx: "dict_get (g_edge_type2idx g) et = Inr idx"
    and run: "g_sess_run g (feed_updates (dict_set fd Dropout (IntVal 0)) idx et) = Inr r"
    and lists: "edge_list edges_pos et = Inr pos" "edge_list edges_neg et = Inr neg"
    and ok: "edges_ok g r et 1 pos" "edges_ok g r et 0 neg"
    by (auto simp: reaches_metrics_def split: sum.splits)
  have two: "length (remdups (replicate (length pos) (1::real) @ replicate (length neg) 0)) = 2"
    using assms(2,3) by (simp add: remdups_two_classes)
  have ne: "zip (pooled_scores g r pos neg) [0..<length pos + length neg] \<noteq> []"
    using assms(2) by (cases pos) (auto simp: pooled_scores_def upt_conv_Cons)
  have m: "metrics g \<lparr>preds = map (edge_score g r) pos, preds_neg = map (edge_score g r) neg,
          actual = [0..<length pos],
          predicted = zip (pooled_scores g r pos neg) [0..<length pos + length neg],
          edge_ind = length pos + length neg\<rparr>
     = Inr (trapz (roc_curve (replicate (length pos) 1 @ replicate (length neg) 0)
                   (map (nan_to_num (g_np g)) (pooled_scores g r pos neg))),
          average_precision_score (replicate (length pos) 1 @ replicate (length neg) 0)
            (map (nan_to_num (g_np g)) (pooled_scores g r pos neg)),
          g_apk g [0..<length pos]
            (map snd (sorted_reverse (g_sorted_nan g)
               (zip (pooled_scores g r pos neg) [0..<length pos + length neg]))) 50)"
    using ne two
    by (simp add: metrics_def labels_all_of_def preds_all_of_def roc_auc_score_def Let_def
          pooled_scores_def)
  show ?thesis
    by (simp add: get_accuracy_scores_def Let_def idx run score_edges_ok [OF lists ok] m)
qed

lemma isl_score_edges_pos:
  assumes "edge_list edges_pos et = Inr pos" "(u, v) \<in> set pos" "adj_lookup g et u v \<noteq> Inr 1"
  shows "isl (score_edges g r edges_pos edges_neg et)"
proof -
  have "isl (fold_err (pos_step g r et) pos s)" for s
    by (rule fold_err_bad [OF assms(2)]) (rule pos_step_bad [OF assms(3)])
  then show ?thesis
    by (simp add: score_edges_def assms(1) isl_and_then)
qed

lemma isl_score_edges_neg:
  assumes "edge_list edges_neg et = Inr neg" "(u, v) \<in> set neg" "adj_lookup g et u v \<noteq> Inr 0"
  shows "isl (score_edges g r edges_pos edges_neg et)"
proof -
  have bad: "isl (fold_err (neg_step g r et) neg s)" for s
    by (rule fold_err_bad [OF assms(2)]) (rule neg_step_bad [OF assms(3)])
  show ?thesis
  proof (cases "edge_list edges_pos et")
    case (Inl e)
    then show ?thesis by (simp add: score_edges_def)
  next
    case (Inr pos)
    show ?thesis
      by (cases "fold_err (pos_step g r et) pos
                 \<lparr>preds = [], preds_neg = [], actual = [], predicted = [], edge_ind = 0\<rparr>")
         (simp_all add: score_edges_def Inr assms(1) bad)
  qed
qed

lemma isl_get_accuracy_scores:
  "(\<And>r. isl (score_edges g r edges_pos edges_neg et)) \<Longrightarrow>
   isl (fst (get_accuracy_scores g fd edges_pos edges_neg et))"
  apply (simp add: get_accuracy_scores_def Let_def split: sum.splits)
  apply (intro allI impI)
  subgoal for idx
    by (cases "g_sess_run g (feed_updates (dict_set fd Dropout (IntVal 0)) idx et)")
       (simp_all add: isl_and_then)
  done

subsection \<open>The ranking of line 235\<close>

lemma np_less_total: "a \<noteq> NaN \<Longrightarrow> b \<noteq> NaN \<Longrightarrow> np_less a b \<or> a = b \<or> np_less b a"
  by (cases a; cases b) auto

lemma np_less_trans: "np_less a b \<Longrightarrow> np_less b c \<Longrightarrow> np_less a c"
  by (cases a; cases b; cases c) auto

lemma np_less_irrefl: "\<not> np_less a a"
  by (cases a) auto

lemma set_insert_by_score: "set (insert_by_score x ys) = insert x (set ys)"
  by (induction ys) auto

lemma set_stable_descending: "set (stable_descending xs) = set xs"
  by (induction xs) (auto simp: stable_descending_def set_insert_by_score)

lemma mset_insert_by_score: "mset (insert_by_score x ys) = add_mset x (mset ys)"
  by (induction ys) auto

lemma mset_stable_descending: "mset (stable_descending xs) = mset xs"
  by (induction xs) (auto simp: stable_descending_def mset_insert_by_score)

lemma sorted_reverse_no_nan:
  "NaN \<notin> set (map fst xs) \<Longrightarrow> sorted_reverse nan_order xs = stable_descending xs"
  by (simp add: sorted_reverse_def)

lemma insert_by_score_sorted:
  assumes "sorted_wrt ranks_before ys" "\<forall>y\<in>set ys. snd x < snd y"
    "fst x \<noteq> NaN" "\<forall>y\<in>set ys. fst y \<noteq> NaN"
  shows "sorted_wrt ranks_before (insert_by_score x ys)"
  using assms
proof (induction ys)
  case Nil
  then show ?case by simp
next
  case (Cons y ys)
  show ?case
  proof (cases "np_less (fst x) (fst y)")
    case True
    have "sorted_wrt ranks_before (insert_by_score x ys)"
      using Cons by auto
    moreover have "\<forall>z\<in>set (insert_by_score x ys). ranks_before y z"
      using Cons.prems(1) True by (auto simp: set_insert_by_score ranks_before_def)
    ultimately show ?thesis using True by simp
  next
    case False
    have xy: "ranks_before x y"
      using False Cons.prems np_less_total [of "fst x" "fst y"]
      by (auto simp: ranks_before_def)
    have "ranks_before x z" if "z \<in> set ys" for z
    proof -
      from that Cons.prems(1) have yz: "ranks_before y z" by auto
      from that Cons.prems(2) have lt: "snd x < snd z" by auto
      from xy yz lt show ?thesis
        by (auto simp: ranks_before_def intro: np_less_trans)
    qed
    with xy Cons.prems(1) False show ?thesis by auto
  qed
qed

lemma stable_descending_sorted:
  assumes "sorted_wrt (\<lambda>x y. snd x < snd y) xs" "\<forall>x\<in>set xs. fst x \<noteq> NaN"
  shows "sorted_wrt ranks_before (stable_descending xs)"
  using assms
proof (induction xs)
  case Nil
  then show ?case by (simp add: stable_descending_def)
next
  case (Cons x xs)
  have "sorted_wrt ranks_before (insert_by_score x (stable_descending xs))"
    using Cons by (intro insert_by_score_sorted) (auto simp: set_stable_descending)
  then show ?case by (simp add: stable_descending_def)
qed

lemma ranking_perm:
  assumes "NaN \<notin> set scores"
  shows "mset (map snd (sorted_reverse nan_order (zip scores [0..<length scores])))
     = mset [0..<length scores]"
proof -
  have n: "NaN \<notin> set (map fst (zip scores [0..<length scores]))"
    using assms by simp
  have "mset (map snd (stable_descending (zip scores [0..<length scores])))
      = mset (map snd (zip scores [0..<length scores]))"
    by (simp only: mset_map mset_stable_descending)
  then show ?thesis by (simp add: sorted_reverse_no_nan [OF n])
qed

lemma ranking_sorted:
  assumes "NaN \<notin> set scores"
  shows "sorted_wrt (\<lambda>a b. np_less (scores ! b) (scores ! a)
                         \<or> (scores ! a = scores ! b \<and> a < b))
           (map snd (sorted_reverse nan_order (zip scores [0..<length scores])))"
proof -
  let ?xs = "zip scores [0..<length scores]"
  have n: "NaN \<notin> set (map fst ?xs)"
    using assms by simp
  have inc: "sorted_wrt (\<lambda>x y. snd x < snd y) ?xs"
  proof -
    have "sorted_wrt (<) (map snd ?xs)" by simp
    then show ?thesis by (simp only: sorted_wrt_map)
  qed
  have el: "fst x = scores ! snd x \<and> fst x \<in> set scores" if "x \<in> set ?xs" for x
    using that by (auto simp: set_zip)
  have nonan: "\<forall>x\<in>set ?xs. fst x \<noteq> NaN"
    using el assms by metis
  have s: "sorted_wrt ranks_before (stable_descending ?xs)"
    by (rule stable_descending_sorted [OF inc nonan])
  have "sorted_wrt (\<lambda>x y. np_less (scores ! snd y) (scores ! snd x)
                         \<or> (scores ! snd x = scores ! snd y \<and> snd x < snd y))
          (stable_descending ?xs)"
    by (rule sorted_wrt_mono_rel [OF _ s])
       (use el in \<open>auto simp: ranks_before_def set_stable_descending\<close>)
  then show ?thesis
    unfolding sorted_reverse_no_nan [OF n] by (simp only: sorted_wrt_map)
qed

subsection \<open>The metrics on separated scores\<close>





















subsection \<open>The claims about the evaluator\<close>

lemmas example_defs = example_globals_def example_adj_def example_pos_def example_neg_def
  edge_list_def adj_lookup_def dict_get_def list_get_def mat_get_def reaches_metrics_def
  edges_ok_def feed_updates_def dict_set_def dict_has_def

text \<open>
  Claim C2. If some pair of the supplied positive list is not stored as 1 in the original
  adjacency matrix of the relation, or some pair of the supplied negative list is not
  stored as 0 there, the call raises: whatever the session returns and whatever the feed
  dictionary held, the result is an exception, never a triple of metrics. (The
  assertions are the \<^verbatim>\<open>assert\<close> statements of lines 217 and 227, as Python runs them
  without \<^verbatim>\<open>-O\<close>; a pair outside the matrix raises \<open>IndexError\<close> instead.)
\<close>

theorem inconsistent_edges_raise:
  assumes "(edge_list edges_pos et = Inr pos \<and> (u, v) \<in> set pos \<and> adj_lookup g et u v \<noteq> Inr 1)
         \<or> (edge_list edges_neg et = Inr neg \<and> (u, v) \<in> set neg \<and> adj_lookup g et u v \<noteq> Inr 0)"
  shows "isl (fst (get_accuracy_scores g fd edges_pos edges_neg et))"
proof (rule isl_get_accuracy_scores)
  fix r
  from assms show "isl (score_edges g r edges_pos edges_neg et)"
  proof
    assume "edge_list edges_pos et = Inr pos \<and> (u, v) \<in> set pos \<and> adj_lookup g et u v \<noteq> Inr 1"
    then show ?thesis by (blast intro: isl_score_edges_pos)
  next
    assume "edge_list edges_neg et = Inr neg \<and> (u, v) \<in> set neg \<and> adj_lookup g et u v \<noteq> Inr 0"
    then show ?thesis by (blast intro: isl_score_edges_neg)
  qed
qed

text \<open>
  Witness for C2: a positive list holding the non-edge \<open>(0,2)\<close>, and a negative list
  holding the edge \<open>(1,2)\<close>, both make the call raise.
\<close>

theorem inconsistent_edges_raise_witness:
  "edge_list corrupt_pos (0, 0, 0) = Inr [(0, 1), (0, 2)]
   \<and> adj_lookup (example_globals separated_rec) (0, 0, 0) 0 2 = Inr 0
   \<and> isl (fst (get_accuracy_scores (example_globals separated_rec) []
                 corrupt_pos example_neg (0, 0, 0)))
   \<and> edge_list corrupt_neg (0, 0, 0) = Inr [(0, 2), (1, 2)]
   \<and> adj_lookup (example_globals separated_rec) (0, 0, 0) 1 2 = Inr 1
   \<and> isl (fst (get_accuracy_scores (example_globals separated_rec) []
                 example_pos corrupt_neg (0, 0, 0)))"
proof -
  have p: "edge_list corrupt_pos (0, 0, 0) = Inr [(0, 1), (0, 2)]"
    by (simp add: corrupt_pos_def edge_list_def dict_get_def list_get_def)
  have pa: "adj_lookup (example_globals separated_rec) (0, 0, 0) 0 2 = Inr 0"
    by (simp add: example_defs)
  have n: "edge_list corrupt_neg (0, 0, 0) = Inr [(0, 2), (1, 2)]"
    by (simp add: corrupt_neg_def edge_list_def dict_get_def list_get_def)
  have na: "adj_lookup (example_globals separated_rec) (0, 0, 0) 1 2 = Inr 1"
    by (simp add: example_defs)
  have "isl (fst (get_accuracy_scores (example_globals separated_rec) []
                 corrupt_pos example_neg (0, 0, 0)))"
    by (rule inconsistent_edges_raise
          [where pos = "[(0, 1), (0, 2)]" and neg = "[]" and u = 0 and v = 2])
       (simp add: example_defs corrupt_pos_def)
  moreover have "isl (fst (get_accuracy_scores (example_globals separated_rec) []
                 example_pos corrupt_neg (0, 0, 0)))"
    by (rule inconsistent_edges_raise
          [where pos = "[]" and neg = "[(0, 2), (1, 2)]" and u = 1 and v = 2])
       (simp add: example_defs corrupt_neg_def)
  ultimately show ?thesis using p pa n na by simp
qed

lemma corrupt_pos_value:
  "fst (get_accuracy_scores (example_globals separated_rec) [] corrupt_pos example_neg (0, 0, 0))
     = Inl (AssertionError ''Problem 1'')"
  by (simp add: get_accuracy_scores_def example_defs separated_rec_def corrupt_pos_def
        score_edges_def pos_step_def rec_get_def Let_def)

lemma dict_get_set_same: "dict_get (dict_set d k v) k = Inr v"
proof (cases "k \<in> fst ` set d")
  case True
  then have "map_of (map (\<lambda>(k', v'). if k' = k then (k', v) else (k', v')) d) k = Some v"
    by (induction d) auto
  moreover from True have "map_of d k \<noteq> None"
    by (simp add: map_of_eq_None_iff)
  ultimately show ?thesis
    by (simp add: dict_get_def dict_set_def dict_has_def)
next
  case False
  then have "map_of d k = None"
    by (simp add: map_of_eq_None_iff)
  then show ?thesis
    by (simp add: dict_get_def dict_set_def dict_has_def map_add_def)
qed

lemma dict_get_set_other: "k' \<noteq> k \<Longrightarrow> dict_get (dict_set d k v) k' = dict_get d k'"
proof -
  assume ne: "k' \<noteq> k"
  have "map_of (map (\<lambda>(k', v'). if k' = k then (k', v) else (k', v')) d) k' = map_of d k'"
    using ne by (induction d) auto
  moreover have "map_of (d @ [(k, v)]) k' = map_of d k'"
    using ne by (simp add: map_add_def split: option.splits)
  ultimately show ?thesis
    by (simp add: dict_get_def dict_set_def)
qed

lemma feed_updates_get:
  "dict_get (feed_updates fd idx et) p =
     (if p = Batch_col_edge_type then Inr (IntVal (int (fst (snd et))))
      else if p = Batch_row_edge_type then Inr (IntVal (int (fst et)))
      else if p = Batch_edge_type_idx then Inr (IntVal (int idx))
      else dict_get fd p)"
  by (simp add: feed_updates_def Let_def dict_get_set_same dict_get_set_other)

text \<open>
  Claim C10. Every call leaves \<^verbatim>\<open>feed_dict[dropout] = 0\<close> in the global feed
  dictionary, whatever it held before; the session is asked for the predictions only
  with a feed whose dropout is 0 (replacing the session by any other that agrees with it
  on such feeds changes nothing); and the call changes the dictionary at no key other
  than the four it updates.
\<close>

theorem evaluator_forces_dropout_zero:
  assumes "\<forall>f. dict_get f Dropout = Inr (IntVal 0) \<longrightarrow> run' f = g_sess_run g f"
  shows "dict_get (snd (get_accuracy_scores g fd edges_pos edges_neg et)) Dropout = Inr (IntVal 0)
    \<and> get_accuracy_scores (g\<lparr>g_sess_run := run'\<rparr>) fd edges_pos edges_neg et
        = get_accuracy_scores g fd edges_pos edges_neg et
    \<and> (\<forall>p. p \<notin> {Dropout, Batch_edge_type_idx, Batch_row_edge_type, Batch_col_edge_type}
          \<longrightarrow> dict_get (snd (get_accuracy_scores g fd edges_pos edges_neg et)) p = dict_get fd p)"
proof -
  have fed: "dict_get (feed_updates (dict_set fd Dropout (IntVal 0)) idx et) Dropout
               = Inr (IntVal 0)" for idx
    by (simp add: feed_updates_get dict_get_set_same)
  have same_adj: "adj_lookup (g\<lparr>g_sess_run := run'\<rparr>) = adj_lookup g"
    by (intro ext) (simp add: adj_lookup_def)
  have same_pos: "pos_step (g\<lparr>g_sess_run := run'\<rparr>) = pos_step g"
    by (intro ext) (simp add: pos_step_def same_adj)
  have same_neg: "neg_step (g\<lparr>g_sess_run := run'\<rparr>) = neg_step g"
    by (intro ext) (simp add: neg_step_def same_adj)
  have same_score: "score_edges (g\<lparr>g_sess_run := run'\<rparr>) = score_edges g"
    by (intro ext) (simp add: score_edges_def same_pos same_neg)
  have same_metrics: "metrics (g\<lparr>g_sess_run := run'\<rparr>) = metrics g"
    by (intro ext) (simp add: metrics_def preds_all_of_def Let_def)
  have run: "run' (feed_updates (dict_set fd Dropout (IntVal 0)) idx et)
      = g_sess_run g (feed_updates (dict_set fd Dropout (IntVal 0)) idx et)" for idx
    using assms fed by blast
  show ?thesis
    by (auto simp: get_accuracy_scores_def Let_def fed run same_score same_metrics
          feed_updates_get dict_get_set_same dict_get_set_other split: sum.splits)
qed

text \<open>
  Witness for C10: the feed dictionary holds the training dropout 0.1 before the call
  and 0 after it, and a session that fails on any nonzero dropout gives the same result.
\<close>

theorem evaluator_forces_dropout_zero_witness:
  "dict_get training_feed Dropout = Inr (FloatVal 0.1)
   \<and> dict_get (snd (get_accuracy_scores (example_globals separated_rec) training_feed
                      example_pos example_neg (0, 0, 0))) Dropout = Inr (IntVal 0)
   \<and> get_accuracy_scores ((example_globals separated_rec)\<lparr>g_sess_run := strict_session separated_rec\<rparr>)
        training_feed example_pos example_neg (0, 0, 0)
      = get_accuracy_scores (example_globals separated_rec) training_feed
          example_pos example_neg (0, 0, 0)
   \<and> dict_get (snd (get_accuracy_scores (example_globals separated_rec) training_feed
                      example_pos example_neg (0, 0, 0))) Batch = dict_get training_feed Batch"
proof -
  have h: "\<forall>f. dict_get f Dropout = Inr (IntVal 0)
            \<longrightarrow> strict_session separated_rec f = g_sess_run (example_globals separated_rec) f"
    by (simp add: strict_session_def example_globals_def)
  have d: "dict_get training_feed Dropout = Inr (FloatVal 0.1)"
    by (simp add: training_feed_def dict_get_def)
  from evaluator_forces_dropout_zero [OF h, of training_feed example_pos example_neg "(0, 0, 0)"] d
  show ?thesis by simp
qed

lemmas metric_defs = roc_auc_score_def roc_curve_def thresholds_def tps_def fps_def
  count_pos_def count_neg_def average_precision_score_def pr_curve_def

lemmas arith_defs = exact_arith_def sigmoid_def edge_score_def

text \<open>
  Once the call gets as far as line 232, the local lists are these, and the call returns
  what the metrics return on them.
\<close>

lemma reaches_scored:
  assumes "reaches_metrics g fd edges_pos edges_neg et r pos neg"
  shows "score_edges g r edges_pos edges_neg et =
     Inr \<lparr>preds = map (edge_score g r) pos, preds_neg = map (edge_score g r) neg,
          actual = [0..<length pos],
          predicted = zip (pooled_scores g r pos neg) [0..<length pos + length neg],
          edge_ind = length pos + length neg\<rparr>"
proof -
  from assms have lists: "edge_list edges_pos et = Inr pos" "edge_list edges_neg et = Inr neg"
    and ok: "edges_ok g r et 1 pos" "edges_ok g r et 0 neg"
    by (auto simp: reaches_metrics_def split: sum.splits)
  show ?thesis by (rule score_edges_ok [OF lists ok])
qed

lemma reaches_result:
  assumes "reaches_metrics g fd edges_pos edges_neg et r pos neg"
    and "score_edges g r edges_pos edges_neg et = Inr s"
  shows "fst (get_accuracy_scores g fd edges_pos edges_neg et) = metrics g s"
proof -
  from assms(1) obtain idx where idx: "dict_get (g_edge_type2idx g) et = Inr idx"
    and run: "g_sess_run g (feed_updates (dict_set fd Dropout (IntVal 0)) idx et) = Inr r"
    by (auto simp: reaches_metrics_def split: sum.splits)
  show ?thesis
    by (simp add: get_accuracy_scores_def Let_def idx run assms(2))
qed

lemma metrics_unfolded:
  assumes "predicted s \<noteq> []"
  shows "metrics g s =
     and_then (roc_auc_score (labels_all_of s) (preds_all_of g s)) (\<lambda>roc.
       Inr (roc, average_precision_score (labels_all_of s) (preds_all_of g s),
            g_apk g (actual s) (map snd (sorted_reverse (g_sorted_nan g) (predicted s))) 50))"
  using assms by (simp add: metrics_def Let_def)

lemma two_classes:
  assumes "pos \<noteq> []" "neg \<noteq> []"
  shows "roc_auc_score (replicate (length pos) 1 @ replicate (length neg) 0) scores
     = Inr (trapz (roc_curve (replicate (length pos) 1 @ replicate (length neg) 0) scores))"
proof -
  have "length (remdups (replicate (length pos) (1::real) @ replicate (length neg) 0)) = 2"
    using assms by (simp add: remdups_two_classes)
  then show ?thesis by (simp add: roc_auc_score_def)
qed

text \<open>
  Claim C3. Whenever the call gets as far as the metrics with at least one positive and
  one negative edge, it returns, whatever the scores are: the conditions do not mention
  them, so a not-a-number score raises nothing. The label vector and the score vector
  that go to \<^verbatim>\<open>roc_auc_score\<close> and \<^verbatim>\<open>average_precision_score\<close> keep one entry per
  positive and per negative edge, and the score vector holds 0 where the score of the
  edge is not-a-number and the score itself where it is a finite number.
\<close>

theorem nan_scores_sanitized:
  assumes "reaches_metrics g fd edges_pos edges_neg et r pos neg" "pos \<noteq> []" "neg \<noteq> []"
  shows "\<exists>s roc. score_edges g r edges_pos edges_neg et = Inr s
    \<and> preds s = map (edge_score g r) pos
    \<and> preds_neg s = map (edge_score g r) neg
    \<and> length (labels_all_of s) = length pos + length neg
    \<and> length (preds_all_of g s) = length pos + length neg
    \<and> (\<forall>i < length pos + length neg.
          ((preds s @ preds_neg s) ! i = NaN \<longrightarrow> preds_all_of g s ! i = 0)
        \<and> (\<forall>x. (preds s @ preds_neg s) ! i = Fin x \<longrightarrow> preds_all_of g s ! i = x))
    \<and> roc_auc_score (labels_all_of s) (preds_all_of g s) = Inr roc
    \<and> fst (get_accuracy_scores g fd edges_pos edges_neg et)
        = Inr (roc, average_precision_score (labels_all_of s) (preds_all_of g s),
               g_apk g (actual s)
                 (map snd (sorted_reverse (g_sorted_nan g) (predicted s))) 50)"
proof -
  let ?s = "\<lparr>preds = map (edge_score g r) pos, preds_neg = map (edge_score g r) neg,
          actual = [0..<length pos],
          predicted = zip (pooled_scores g r pos neg) [0..<length pos + length neg],
          edge_ind = length pos + length neg\<rparr>"
  let ?roc = "trapz (roc_curve (labels_all_of ?s) (preds_all_of g ?s))"
  have se: "score_edges g r edges_pos edges_neg et = Inr ?s"
    by (rule reaches_scored [OF assms(1)])
  have ne: "predicted ?s \<noteq> []"
    using assms(2) by (cases pos) (auto simp: pooled_scores_def upt_conv_Cons)
  have roc: "roc_auc_score (labels_all_of ?s) (preds_all_of g ?s) = Inr ?roc"
    using two_classes [OF assms(2,3)] by (simp add: labels_all_of_def)
  have res: "fst (get_accuracy_scores g fd edges_pos edges_neg et)
      = Inr (?roc, average_precision_score (labels_all_of ?s) (preds_all_of g ?s),
             g_apk g (actual ?s) (map snd (sorted_reverse (g_sorted_nan g) (predicted ?s))) 50)"
    unfolding reaches_result [OF assms(1) se] metrics_unfolded [OF ne] roc by simp
  have each: "((preds ?s @ preds_neg ?s) ! i = NaN \<longrightarrow> preds_all_of g ?s ! i = 0)
        \<and> (\<forall>x. (preds ?s @ preds_neg ?s) ! i = Fin x \<longrightarrow> preds_all_of g ?s ! i = x)"
    if "i < length pos + length neg" for i
  proof -
    have n: "i < length (preds ?s @ preds_neg ?s)" using that by simp
    have "preds_all_of g ?s ! i = nan_to_num (g_np g) ((preds ?s @ preds_neg ?s) ! i)"
      unfolding preds_all_of_def by (rule nth_map [OF n])
    then show ?thesis by auto
  qed
  have len: "length (labels_all_of ?s) = length pos + length neg"
    "length (preds_all_of g ?s) = length pos + length neg"
    by (simp_all add: labels_all_of_def preds_all_of_def)
  have p: "preds ?s = map (edge_score g r) pos" "preds_neg ?s = map (edge_score g r) neg"
    by simp_all
  from se p len each roc res show ?thesis by blast
qed

text \<open>
  Witness for C3: one positive edge whose score is not-a-number and one negative edge
  whose score is 0. The score vector handed to sklearn is 0, 0, and the call returns
  ROC-AUC 1/2 and average precision 1/2, the values of a tie.
\<close>

theorem nan_scores_sanitized_witness:
  "reaches_metrics (example_globals nan_low_rec) [] single_pos single_neg (0, 0, 0) nan_low_rec
      [(0, 1)] [(0, 2)]
   \<and> score_edges (example_globals nan_low_rec) nan_low_rec single_pos single_neg (0, 0, 0)
       = Inr \<lparr>preds = [NaN], preds_neg = [Fin 0], actual = [0],
              predicted = [(NaN, 0), (Fin 0, 1)], edge_ind = 2\<rparr>
   \<and> preds_all_of (example_globals nan_low_rec)
        \<lparr>preds = [NaN], preds_neg = [Fin 0], actual = [0],
          predicted = [(NaN, 0), (Fin 0, 1)], edge_ind = 2\<rparr> = [0, 0]
   \<and> fst (get_accuracy_scores (example_globals nan_low_rec) [] single_pos single_neg (0, 0, 0))
       = Inr (1 / 2, 1 / 2, 1)"
proof -
  let ?g = "example_globals nan_low_rec"
  let ?s = "\<lparr>preds = [NaN], preds_neg = [Fin 0], actual = [0::nat],
          predicted = [(NaN, 0::nat), (Fin 0, 1)], edge_ind = 2::nat\<rparr>"
  have h: "reaches_metrics ?g [] single_pos single_neg (0, 0, 0) nan_low_rec [(0, 1)] [(0, 2)]"
    by (simp add: example_defs single_pos_def single_neg_def nan_low_rec_def)
  have sc: "map (edge_score ?g nan_low_rec) [(0, 1)] = [NaN]"
    "map (edge_score ?g nan_low_rec) [(0, 2)] = [Fin 0]"
    by (simp_all add: arith_defs example_globals_def nan_low_rec_def)
  have se: "score_edges ?g nan_low_rec single_pos single_neg (0, 0, 0) = Inr ?s"
    unfolding reaches_scored [OF h] pooled_scores_def
    using sc by (simp add: upt_conv_Cons numeral_2_eq_2)
  have pa: "preds_all_of ?g ?s = [0, 0]"
    by (simp add: preds_all_of_def)
  have la: "labels_all_of ?s = [1, 0]"
    by (simp add: labels_all_of_def)
  have roc: "roc_auc_score [1, 0] [0, 0] = Inr (1 / 2)"
    by (simp add: metric_defs)
  have ap: "average_precision_score [1, 0] [0, 0] = 1 / 2"
    by (simp add: metric_defs)
  have k: "g_apk ?g (actual ?s) (map snd (sorted_reverse (g_sorted_nan ?g) (predicted ?s))) 50 = 1"
    by (simp add: example_globals_def sorted_reverse_def stable_descending_def apk_at_k_def)
  from nan_scores_sanitized [OF h] obtain s roc' where
    s: "score_edges ?g nan_low_rec single_pos single_neg (0, 0, 0) = Inr s"
    and r: "roc_auc_score (labels_all_of s) (preds_all_of ?g s) = Inr roc'"
    and res: "fst (get_accuracy_scores ?g [] single_pos single_neg (0, 0, 0))
        = Inr (roc', average_precision_score (labels_all_of s) (preds_all_of ?g s),
               g_apk ?g (actual s) (map snd (sorted_reverse (g_sorted_nan ?g) (predicted s))) 50)"
    by auto
  from s se have eq: "s = ?s" by simp
  from r have r': "roc' = 1 / 2" unfolding eq pa la roc by simp
  have "fst (get_accuracy_scores ?g [] single_pos single_neg (0, 0, 0)) = Inr (1 / 2, 1 / 2, 1)"
    unfolding res r' unfolding eq k pa la ap by simp
  with h se pa show ?thesis by (intro conjI)
qed

subsection \<open>The ranking handed to apk\<close>

text \<open>
  What line 239 hands to \<^verbatim>\<open>rank_metrics.apk\<close>: \<open>k\<close> is 50, \<^verbatim>\<open>actual\<close> is the list of the
  indices of the positive edges, and \<^verbatim>\<open>predicted\<close> ranks the indices of all edges,
  positives first and negatives after them. When no score is not-a-number the ranking is
  a permutation of the indices in descending order of score, two equal scores in the
  order of their indices, so that a positive comes before a negative of the same score.
\<close>

lemma apk_ranking_without_nan:
  assumes "reaches_metrics g fd edges_pos edges_neg et r pos neg" "pos \<noteq> []" "neg \<noteq> []"
  shows "\<exists>s roc ap. score_edges g r edges_pos edges_neg et = Inr s
    \<and> actual s = [0..<length pos]
    \<and> map snd (predicted s) = [0..<length pos + length neg]
    \<and> map fst (predicted s) = map (edge_score g r) pos @ map (edge_score g r) neg
    \<and> fst (get_accuracy_scores g fd edges_pos edges_neg et)
        = Inr (roc, ap, g_apk g (actual s)
                 (map snd (sorted_reverse (g_sorted_nan g) (predicted s))) 50)
    \<and> (NaN \<notin> set (map fst (predicted s)) \<longrightarrow>
          mset (map snd (sorted_reverse (g_sorted_nan g) (predicted s)))
            = mset [0..<length pos + length neg]
        \<and> sorted_wrt (\<lambda>a b. np_less (fst (predicted s ! b)) (fst (predicted s ! a))
                          \<or> (fst (predicted s ! a) = fst (predicted s ! b) \<and> a < b))
            (map snd (sorted_reverse (g_sorted_nan g) (predicted s))))"
proof -
  let ?sc = "pooled_scores g r pos neg"
  let ?s = "\<lparr>preds = map (edge_score g r) pos, preds_neg = map (edge_score g r) neg,
          actual = [0..<length pos],
          predicted = zip ?sc [0..<length pos + length neg],
          edge_ind = length pos + length neg\<rparr>"
  have len: "length ?sc = length pos + length neg"
    by (simp add: pooled_scores_def)
  have se: "score_edges g r edges_pos edges_neg et = Inr ?s"
    by (rule reaches_scored [OF assms(1)])
  have ne: "predicted ?s \<noteq> []"
    using assms(2) by (cases pos) (auto simp: pooled_scores_def upt_conv_Cons)
  have roc: "roc_auc_score (labels_all_of ?s) (preds_all_of g ?s)
      = Inr (trapz (roc_curve (labels_all_of ?s) (preds_all_of g ?s)))"
    using two_classes [OF assms(2,3)] by (simp add: labels_all_of_def)
  have res: "\<exists>roc ap. fst (get_accuracy_scores g fd edges_pos edges_neg et)
      = Inr (roc, ap, g_apk g (actual ?s)
               (map snd (sorted_reverse (g_sorted_nan g) (predicted ?s))) 50)"
    unfolding reaches_result [OF assms(1) se] metrics_unfolded [OF ne] roc by simp
  have sn: "map snd (predicted ?s) = [0..<length pos + length neg]"
    using len by simp
  have fs: "map fst (predicted ?s) = map (edge_score g r) pos @ map (edge_score g r) neg"
    using len by (simp add: pooled_scores_def)
  have nth: "fst (predicted ?s ! a) = ?sc ! a" if "a < length pos + length neg" for a
    using that len by simp
  have ord: "mset (map snd (sorted_reverse (g_sorted_nan g) (predicted ?s)))
            = mset [0..<length pos + length neg]
        \<and> sorted_wrt (\<lambda>a b. np_less (fst (predicted ?s ! b)) (fst (predicted ?s ! a))
                          \<or> (fst (predicted ?s ! a) = fst (predicted ?s ! b) \<and> a < b))
            (map snd (sorted_reverse (g_sorted_nan g) (predicted ?s)))"
    if "NaN \<notin> set (map fst (predicted ?s))"
  proof -
    from that len have nn: "NaN \<notin> set ?sc" by simp
    have perm: "mset (map snd (sorted_reverse (g_sorted_nan g) (predicted ?s)))
        = mset [0..<length pos + length neg]"
      using ranking_perm [OF nn, of "g_sorted_nan g"] by (simp add: len)
    define xs where "xs = map snd (sorted_reverse (g_sorted_nan g) (predicted ?s))"
    have inr: "a < length pos + length neg" if "a \<in> set xs" for a
      using mset_eq_setD [OF perm] that unfolding xs_def by simp
    have P: "sorted_wrt (\<lambda>a b. np_less (?sc ! b) (?sc ! a) \<or> (?sc ! a = ?sc ! b \<and> a < b)) xs"
      unfolding xs_def using ranking_sorted [OF nn, of "g_sorted_nan g"] by (simp add: len)
    have "sorted_wrt (\<lambda>a b. np_less (fst (predicted ?s ! b)) (fst (predicted ?s ! a))
                          \<or> (fst (predicted ?s ! a) = fst (predicted ?s ! b) \<and> a < b)) xs"
    proof (rule sorted_wrt_mono_rel [OF _ P])
      fix a b
      assume a: "a \<in> set xs" and b: "b \<in> set xs"
        and ab: "np_less (?sc ! b) (?sc ! a) \<or> (?sc ! a = ?sc ! b \<and> a < b)"
      show "np_less (fst (predicted ?s ! b)) (fst (predicted ?s ! a))
          \<or> (fst (predicted ?s ! a) = fst (predicted ?s ! b) \<and> a < b)"
        unfolding nth [OF inr [OF a]] nth [OF inr [OF b]] by (rule ab)
    qed
    with perm show ?thesis unfolding xs_def by simp
  qed
  have a: "actual ?s = [0..<length pos]" by simp
  from res obtain roc ap where
    "fst (get_accuracy_scores g fd edges_pos edges_neg et)
      = Inr (roc, ap, g_apk g (actual ?s)
               (map snd (sorted_reverse (g_sorted_nan g) (predicted ?s))) 50)"
    by blast
  with se a sn fs ord show ?thesis by blast
qed

text \<open>
  Claim C4 fails on a batch with a not-a-number score, which line 233 replaces by 0 for
  \<^verbatim>\<open>roc_auc_score\<close> and \<^verbatim>\<open>average_precision_score\<close> but line 235 does not. One
  positive edge with the score not-a-number and one negative edge with the score 1/2:
  the sort compares \<^verbatim>\<open>nan < 0.5\<close>, which is false, and leaves the positive, index 0, in
  front of the negative, index 1. The call reports the ROC-AUC 0 of a positive scored
  below the negative, and the average precision at k of 1 of a positive ranked first.
  In descending order of the scores 0 and 1/2 the ranking is 1, 0 and the average
  precision at k is 1/2.
\<close>

theorem nan_score_ranked_first:
  "score_edges (example_globals nan_rec) nan_rec single_pos single_neg (0, 0, 0)
       = Inr \<lparr>preds = [NaN], preds_neg = [Fin (1 / 2)], actual = [0],
              predicted = [(NaN, 0), (Fin (1 / 2), 1)], edge_ind = 2\<rparr>
   \<and> preds_all_of (example_globals nan_rec)
        \<lparr>preds = [NaN], preds_neg = [Fin (1 / 2)], actual = [0],
          predicted = [(NaN, 0), (Fin (1 / 2), 1)], edge_ind = 2\<rparr> = [0, 1 / 2]
   \<and> map snd (sorted_reverse (g_sorted_nan (example_globals nan_rec))
                 [(NaN, 0), (Fin (1 / 2), 1)]) = [0, 1]
   \<and> fst (get_accuracy_scores (example_globals nan_rec) [] single_pos single_neg (0, 0, 0))
       = Inr (0, 1 / 2, 1)
   \<and> map snd (stable_descending [(Fin 0, 0), (Fin (1 / 2), 1)]) = [1, 0]
   \<and> apk_at_k [0] [1, 0] 50 = 1 / 2"
proof -
  let ?g = "example_globals nan_rec"
  let ?s = "\<lparr>preds = [NaN], preds_neg = [Fin (1 / 2)], actual = [0::nat],
          predicted = [(NaN, 0::nat), (Fin (1 / 2), 1)], edge_ind = 2::nat\<rparr>"
  have h: "reaches_metrics ?g [] single_pos single_neg (0, 0, 0) nan_rec [(0, 1)] [(0, 2)]"
    by (simp add: example_defs single_pos_def single_neg_def nan_rec_def)
  have sc: "map (edge_score ?g nan_rec) [(0, 1)] = [NaN]"
    "map (edge_score ?g nan_rec) [(0, 2)] = [Fin (1 / 2)]"
    by (simp_all add: arith_defs example_globals_def nan_rec_def)
  have se: "score_edges ?g nan_rec single_pos single_neg (0, 0, 0) = Inr ?s"
    unfolding reaches_scored [OF h] pooled_scores_def
    using sc by (simp add: upt_conv_Cons numeral_2_eq_2)
  have pa: "preds_all_of ?g ?s = [0, 1 / 2]"
    by (simp add: preds_all_of_def)
  have la: "labels_all_of ?s = [1, 0]"
    by (simp add: labels_all_of_def)
  have roc: "roc_auc_score [1, 0] [0, 1 / 2] = Inr 0"
    by (simp add: metric_defs)
  have ap: "average_precision_score [1, 0] [0, 1 / 2] = 1 / 2"
    by (simp add: metric_defs)
  have rk: "map snd (sorted_reverse (g_sorted_nan ?g) [(NaN, 0), (Fin (1 / 2), 1)]) = [0, 1]"
    by (simp add: sorted_reverse_def stable_descending_def)
  have ne: "predicted ?s \<noteq> []" by simp
  have gk: "g_apk ?g (actual ?s) (map snd (sorted_reverse (g_sorted_nan ?g) (predicted ?s))) 50 = 1"
    by (simp add: example_globals_def sorted_reverse_def stable_descending_def apk_at_k_def)
  have res: "fst (get_accuracy_scores ?g [] single_pos single_neg (0, 0, 0)) = Inr (0, 1 / 2, 1)"
    unfolding reaches_result [OF h se] metrics_unfolded [OF ne] pa la roc ap gk by simp
  have want: "map snd (stable_descending [(Fin 0, 0), (Fin (1 / 2), 1)]) = [1, 0]"
    by (simp add: stable_descending_def)
  have k': "apk_at_k [0] [1, 0] 50 = 1 / 2"
    by (simp add: apk_at_k_def)
  from se pa rk res want k' show ?thesis by (intro conjI)
qed

subsection \<open>Separated scores\<close>



text \<open>
  In an arithmetic that rounds, separated logits need not give separated scores: with
  the logits 40 on the positives and 37 on the negatives every score is exactly 1, and
  the call returns the ROC-AUC 1/2 and the average precision 1/2 of a four-way tie.
\<close>

lemma saturated_scores_tie:
  "fst (get_accuracy_scores ((example_globals saturated_rec)\<lparr>g_np := rounding_arith\<rparr>) []
          example_pos example_neg (0, 0, 0)) = Inr (1 / 2, 1 / 2, 1)"
proof -
  let ?g = "(example_globals saturated_rec)\<lparr>g_np := rounding_arith\<rparr>"
  let ?s = "\<lparr>preds = [Fin 1, Fin 1], preds_neg = [Fin 1, Fin 1], actual = [0::nat, 1],
              predicted = [(Fin 1, 0::nat), (Fin 1, 1), (Fin 1, 2), (Fin 1, 3)],
              edge_ind = 4::nat\<rparr>"
  have h: "reaches_metrics ?g [] example_pos example_neg (0, 0, 0)
      saturated_rec [(0, 1), (1, 2)] [(0, 2), (2, 0)]"
    by (simp add: example_defs saturated_rec_def)
  have sc: "map (edge_score ?g saturated_rec) [(0, 1), (1, 2)] = [Fin 1, Fin 1]"
    "map (edge_score ?g saturated_rec) [(0, 2), (2, 0)] = [Fin 1, Fin 1]"
    by (simp_all add: arith_defs rounding_arith_def example_globals_def saturated_rec_def)
  have up: "[0..<4] = [0, 1, 2, 3]" "[0..<2] = [0, 1]"
    by (simp_all add: upt_conv_Cons)
  have se: "score_edges ?g saturated_rec example_pos example_neg (0, 0, 0) = Inr ?s"
    unfolding reaches_scored [OF h] pooled_scores_def
    using sc by (simp add: up)
  have pa: "preds_all_of ?g ?s = [1, 1, 1, 1]"
    by (simp add: preds_all_of_def)
  have la: "labels_all_of ?s = [1, 1, 0, 0]"
    by (simp add: labels_all_of_def numeral_2_eq_2)
  have roc: "roc_auc_score [1, 1, 0, 0] [1, 1, 1, 1] = Inr (1 / 2)"
    by (simp add: metric_defs)
  have ap: "average_precision_score [1, 1, 0, 0] [1, 1, 1, 1] = 1 / 2"
    by (simp add: metric_defs)
  have k: "g_apk ?g (actual ?s) (map snd (sorted_reverse (g_sorted_nan ?g) (predicted ?s))) 50 = 1"
    by (simp add: example_globals_def sorted_reverse_def stable_descending_def apk_at_k_def)
  have ne: "predicted ?s \<noteq> []" by simp
  show ?thesis
    unfolding reaches_result [OF h se] metrics_unfolded [OF ne] pa la roc ap k by simp
qed

section \<open>Properties of the training and test loops\<close>

subsection \<open>The events of a run follow the step sequence\<close>

lemma follow_append:
  "follow p ph (xs @ ys) = (case follow p ph xs of None \<Rightarrow> None | Some ph' \<Rightarrow> follow p ph' ys)"
  by (induction xs arbitrary: ph) (auto split: option.splits)

lemma follow_snoc:
  "follow p ph0 t = Some ph \<Longrightarrow> follow p ph0 (t @ [ev]) = next_phase p ph ev"
  by (simp add: follow_append split: option.splits)

lemma evaluate_trace:
  assumes "evaluate p edges_pos edges_neg idx ev st = (out, st')"
  shows "(out = None \<and> (\<exists>et sc. dict_get (mb_idx2edge_type p) idx = Inr et
            \<and> fst (get_accuracy_scores (globals_of p (sess st)) (feed_dict st)
                     edges_pos edges_neg et) = Inr sc
            \<and> trace st' = trace st @ [ev et (sess st) (feed_dict st) sc]))
       \<or> (out \<noteq> None \<and> trace st' = trace st)"
  using assms
  by (auto simp: evaluate_def log_event_def split: sum.splits prod.splits)

lemma evaluate_keeps:
  assumes "evaluate p edges_pos edges_neg idx ev st = (out, st')"
  shows "minibatch st' = minibatch st \<and> sess st' = sess st"
  using assms
  by (auto simp: evaluate_def log_event_def split: sum.splits prod.splits)

lemma train_step_follow:
  assumes "follow p ph0 (trace st) = Some (To_draw e itr)" "train_step p itr st = (out, st')"
  shows "(out = None \<longrightarrow> follow p ph0 (trace st') = Some (At_head e (Suc itr)))
       \<and> (\<exists>ph. follow p ph0 (trace st') = Some ph)"
proof (cases "mb_next_minibatch_feed_dict p (minibatch st)")
  case (Inl err)
  with assms show ?thesis by (auto simp: train_step_def)
next
  case (Inr a)
  obtain fd1 it1 where a: "a = (fd1, it1)" by (cases a)
  show ?thesis
  proof (cases "mb_update_feed_dict p it1 fd1 (FloatVal (flags_dropout p))")
    case (Inl err)
    with assms Inr a show ?thesis by (auto simp: train_step_def)
  next
    case upd: (Inr b)
    obtain fd2 it2 where b: "b = (fd2, it2)" by (cases b)
    let ?idx = "mb_current_edge_type_idx p it2"
    let ?st2 = "log_event (Draw ?idx) (st\<lparr>minibatch := it2, feed_dict := fd2\<rparr>)"
    have f2: "follow p ph0 (trace ?st2) = Some (Drawn e itr ?idx)"
      using follow_snoc [OF assms(1), of "Draw ?idx"] by (simp add: log_event_def)
    show ?thesis
    proof (cases "sess_train p (sess st) fd2")
      case (Inl err)
      with assms Inr a upd b f2 show ?thesis
        by (auto simp: train_step_def log_event_def)
    next
      case tr: (Inr ss)
      let ?st3 = "log_event Optimize (?st2\<lparr>sess := ss\<rparr>)"
      have f3: "follow p ph0 (trace ?st3)
          = Some (if itr mod 150 = 0 then Optimized e itr ?idx else At_head e (Suc itr))"
        using follow_snoc [OF f2, of Optimize] by (simp add: log_event_def)
      show ?thesis
      proof (cases "itr mod 150 = 0")
        case False
        with assms Inr a upd b tr f3 show ?thesis
          by (auto simp: train_step_def log_event_def PRINT_PROGRESS_EVERY_def)
      next
        case True
        have ev: "evaluate p (mb_val_edges p) (mb_val_edges_false p) ?idx Validate ?st3 = (out, st')"
          using assms(2) Inr a upd b tr True
          by (simp add: train_step_def log_event_def PRINT_PROGRESS_EVERY_def)
        from f3 True have f3': "follow p ph0 (trace ?st3) = Some (Optimized e itr ?idx)" by simp
        from evaluate_trace [OF ev] show ?thesis
        proof
          assume "out = None \<and> (\<exists>et sc. dict_get (mb_idx2edge_type p) ?idx = Inr et
            \<and> fst (get_accuracy_scores (globals_of p (sess ?st3)) (feed_dict ?st3)
                     (mb_val_edges p) (mb_val_edges_false p) et) = Inr sc
            \<and> trace st' = trace ?st3 @ [Validate et (sess ?st3) (feed_dict ?st3) sc])"
          then obtain et sc where o: "out = None"
            and et: "dict_get (mb_idx2edge_type p) ?idx = Inr et"
            and sc: "fst (get_accuracy_scores (globals_of p (sess ?st3)) (feed_dict ?st3)
                     (mb_val_edges p) (mb_val_edges_false p) et) = Inr sc"
            and t: "trace st' = trace ?st3 @ [Validate et (sess ?st3) (feed_dict ?st3) sc]"
            by blast
          have "follow p ph0 (trace st') = Some (At_head e (Suc itr))"
            unfolding t using follow_snoc [OF f3', of "Validate et (sess ?st3) (feed_dict ?st3) sc"] et sc
            by simp
          then show ?thesis by simp
        next
          assume "out \<noteq> None \<and> trace st' = trace ?st3"
          with f3' show ?thesis by simp
        qed
      qed
    qed
  qed
qed

lemma batches_follow:
  assumes "batches p itr st = Some r"
  shows "\<forall>e. follow p ph0 (trace st) = Some (At_head e itr) \<longrightarrow>
       (fst r = None \<longrightarrow> follow p ph0 (trace (snd r)) = Some (epoch_done p e))
       \<and> (\<exists>ph. follow p ph0 (trace (snd r)) = Some ph)"
proof (rule batches.raw_induct [OF _ assms])
  fix batches' :: "('a, 'b) program \<Rightarrow> nat \<Rightarrow> ('a, 'b) state
     \<Rightarrow> (error option \<times> ('a, 'b) state) option"
  fix p itr st r
  assume IH: "\<And>p itr st r. batches' p itr st = Some r \<Longrightarrow>
     \<forall>e. follow p ph0 (trace st) = Some (At_head e itr) \<longrightarrow>
       (fst r = None \<longrightarrow> follow p ph0 (trace (snd r)) = Some (epoch_done p e))
       \<and> (\<exists>ph. follow p ph0 (trace (snd r)) = Some ph)"
  assume body: "(case mb_end p (minibatch st) of
        Inl e \<Rightarrow> Some (Some e, st)
      | Inr finished \<Rightarrow>
          if finished then Some (None, log_event (End True) st)
          else
            (case train_step p itr (log_event (End False) st) of
               (None, st') \<Rightarrow> batches' p (Suc itr) st'
             | (Some e, st') \<Rightarrow> Some (Some e, st'))) = Some r"
  show "\<forall>e. follow p ph0 (trace st) = Some (At_head e itr) \<longrightarrow>
       (fst r = None \<longrightarrow> follow p ph0 (trace (snd r)) = Some (epoch_done p e))
       \<and> (\<exists>ph. follow p ph0 (trace (snd r)) = Some ph)"
  proof (intro allI impI)
    fix e
    assume head: "follow p ph0 (trace st) = Some (At_head e itr)"
    show "(fst r = None \<longrightarrow> follow p ph0 (trace (snd r)) = Some (epoch_done p e))
       \<and> (\<exists>ph. follow p ph0 (trace (snd r)) = Some ph)"
    proof (cases "mb_end p (minibatch st)")
      case (Inl err)
      with body head show ?thesis by auto
    next
      case (Inr finished)
      show ?thesis
      proof (cases finished)
        case True
        with body Inr have r: "r = (None, log_event (End True) st)" by simp
        show ?thesis
          using follow_snoc [OF head, of "End True"] by (simp add: r log_event_def)
      next
        case False
        let ?st1 = "log_event (End False) st"
        have f1: "follow p ph0 (trace ?st1) = Some (To_draw e itr)"
          using follow_snoc [OF head, of "End False"] by (simp add: log_event_def)
        obtain out st' where ts: "train_step p itr ?st1 = (out, st')"
          by (cases "train_step p itr ?st1")
        from train_step_follow [OF f1 ts]
        have ok: "out = None \<longrightarrow> follow p ph0 (trace st') = Some (At_head e (Suc itr))"
          and some: "\<exists>ph. follow p ph0 (trace st') = Some ph" by simp_all
        show ?thesis
        proof (cases out)
          case None
          with body Inr False ts have rec: "batches' p (Suc itr) st' = Some r"
            by simp
          from ok None have "follow p ph0 (trace st') = Some (At_head e (Suc itr))" by simp
          with IH [OF rec] show ?thesis by blast
        next
          case (Some err)
          with body Inr False ts have "r = (Some err, st')" by simp
          with some show ?thesis by simp
        qed
      qed
    qed
  qed
qed

lemma epoch_done_conv: "epoch_done p e = done_phase p (Suc e)"
  by (simp add: epoch_done_def done_phase_def)

lemma epochs_follow:
  "epochs p n st = Some r \<Longrightarrow> n \<le> flags_epochs p \<Longrightarrow>
   follow p ph0 (trace st) = Some (done_phase p (flags_epochs p - n)) \<Longrightarrow>
   (fst r = None \<longrightarrow> follow p ph0 (trace (snd r)) = Some (Testing 0))
   \<and> (\<exists>ph. follow p ph0 (trace (snd r)) = Some ph)"
proof (induction n arbitrary: st)
  case 0
  then show ?case by (auto simp: done_phase_def)
next
  case (Suc n)
  let ?k = "flags_epochs p - Suc n"
  from Suc.prems(2) have k: "?k \<noteq> flags_epochs p" and sk: "Suc ?k = flags_epochs p - n" by auto
  from Suc.prems(3) k have at: "follow p ph0 (trace st) = Some (At_epoch ?k)"
    by (simp add: done_phase_def)
  show ?case
  proof (cases "mb_shuffle p (minibatch st)")
    case (Inl err)
    with Suc.prems(1) at show ?thesis by auto
  next
    case (Inr it')
    let ?st1 = "log_event Shuffle (st\<lparr>minibatch := it'\<rparr>)"
    have f1: "follow p ph0 (trace ?st1) = Some (At_head ?k 0)"
      using follow_snoc [OF at, of Shuffle] by (simp add: log_event_def)
    from Suc.prems(1) Inr obtain r1 where b: "batches p 0 ?st1 = Some r1"
      by (cases "batches p 0 ?st1") auto
    from batches_follow [OF b, of ph0] f1
    have ok: "fst r1 = None \<longrightarrow> follow p ph0 (trace (snd r1)) = Some (done_phase p (flags_epochs p - n))"
      and some: "\<exists>ph. follow p ph0 (trace (snd r1)) = Some ph"
      by (simp_all add: epoch_done_conv sk)
    obtain out st' where r1: "r1 = (out, st')" by (cases r1)
    show ?thesis
    proof (cases out)
      case None
      with Suc.prems(1) Inr b r1 have rec: "epochs p n st' = Some r" by simp
      from ok r1 None have "follow p ph0 (trace st') = Some (done_phase p (flags_epochs p - n))"
        by simp
      with Suc.IH [OF rec] Suc.prems(2) show ?thesis by simp
    next
      case (Some err)
      with Suc.prems(1) Inr b r1 have "r = (Some err, st')" by simp
      with some r1 show ?thesis by simp
    qed
  qed
qed

lemma tests_follow:
  "tests p [k..<the_num_edge_types p] st = r \<Longrightarrow> k \<le> the_num_edge_types p \<Longrightarrow>
   follow p ph0 (trace st) = Some (Testing k) \<Longrightarrow>
   (fst r = None \<longrightarrow> follow p ph0 (trace (snd r)) = Some (Testing (the_num_edge_types p)))
   \<and> (\<exists>ph. follow p ph0 (trace (snd r)) = Some ph)"
proof (induction "the_num_edge_types p - k" arbitrary: k st)
  case 0
  then have "k = the_num_edge_types p" by simp
  with 0 show ?case by auto
next
  case (Suc d)
  then have lt: "k < the_num_edge_types p" by simp
  then have up: "[k..<the_num_edge_types p] = k # [Suc k..<the_num_edge_types p]"
    by (rule upt_conv_Cons)
  obtain out st' where ev: "evaluate p (mb_test_edges p) (mb_test_edges_false p) k (Test k) st = (out, st')"
    by (cases "evaluate p (mb_test_edges p) (mb_test_edges_false p) k (Test k) st")
  from evaluate_trace [OF ev] show ?case
  proof
    assume "out = None \<and> (\<exists>et sc. dict_get (mb_idx2edge_type p) k = Inr et
            \<and> fst (get_accuracy_scores (globals_of p (sess st)) (feed_dict st)
                     (mb_test_edges p) (mb_test_edges_false p) et) = Inr sc
            \<and> trace st' = trace st @ [Test k et (sess st) (feed_dict st) sc])"
    then obtain et sc where o: "out = None" and et: "dict_get (mb_idx2edge_type p) k = Inr et"
      and sc: "fst (get_accuracy_scores (globals_of p (sess st)) (feed_dict st)
                     (mb_test_edges p) (mb_test_edges_false p) et) = Inr sc"
      and t: "trace st' = trace st @ [Test k et (sess st) (feed_dict st) sc]" by blast
    have f: "follow p ph0 (trace st') = Some (Testing (Suc k))"
      unfolding t
      using follow_snoc [OF Suc.prems(3), of "Test k et (sess st) (feed_dict st) sc"] et sc lt
      by simp
    have rec: "tests p [Suc k..<the_num_edge_types p] st' = r"
      using Suc.prems(1) ev o by (simp add: up)
    have d: "d = the_num_edge_types p - Suc k" using Suc.hyps(2) by simp
    from Suc.hyps(1) [OF d rec _ f] lt show ?thesis by simp
  next
    assume "out \<noteq> None \<and> trace st' = trace st"
    then obtain err where o: "out = Some err" and t: "trace st' = trace st" by auto
    have "r = (Some err, st')" using Suc.prems(1) ev o by (simp add: up)
    with t Suc.prems(3) show ?thesis by simp
  qed
qed

subsection \<open>The run comes to an end\<close>

lemma evaluate_returns:
  assumes "evaluation_returns p edges_pos edges_neg idx"
  shows "fst (evaluate p edges_pos edges_neg idx ev st) = None"
proof -
  from assms obtain et where et: "dict_get (mb_idx2edge_type p) idx = Inr et"
    and nr: "\<not> isl (fst (get_accuracy_scores (globals_of p (sess st)) (feed_dict st)
                           edges_pos edges_neg et))"
    unfolding evaluation_returns_def by blast
  obtain res fd where g: "get_accuracy_scores (globals_of p (sess st)) (feed_dict st)
      edges_pos edges_neg et = (res, fd)"
    by (cases "get_accuracy_scores (globals_of p (sess st)) (feed_dict st) edges_pos edges_neg et")
  from nr g obtain sc where "res = Inr sc" by (cases res) auto
  with et g show ?thesis by (simp add: evaluate_def)
qed

lemma train_step_minibatch:
  assumes "train_step p itr st = (None, st')"
  shows "\<exists>fd1 it1 fd2. mb_next_minibatch_feed_dict p (minibatch st) = Inr (fd1, it1)
     \<and> mb_update_feed_dict p it1 fd1 (FloatVal (flags_dropout p)) = Inr (fd2, minibatch st')"
proof (cases "mb_next_minibatch_feed_dict p (minibatch st)")
  case (Inl err)
  with assms show ?thesis by (simp add: train_step_def)
next
  case (Inr a)
  obtain fd1 it1 where a: "a = (fd1, it1)" by (cases a)
  show ?thesis
  proof (cases "mb_update_feed_dict p it1 fd1 (FloatVal (flags_dropout p))")
    case (Inl err)
    with assms Inr a show ?thesis by (simp add: train_step_def)
  next
    case upd: (Inr b)
    obtain fd2 it2 where b: "b = (fd2, it2)" by (cases b)
    let ?st2 = "log_event (Draw (mb_current_edge_type_idx p it2))
                  (st\<lparr>minibatch := it2, feed_dict := fd2\<rparr>)"
    show ?thesis
    proof (cases "sess_train p (sess st) fd2")
      case (Inl err)
      with assms Inr a upd b show ?thesis by (simp add: train_step_def log_event_def)
    next
      case tr: (Inr ss)
      let ?st3 = "log_event Optimize (?st2\<lparr>sess := ss\<rparr>)"
      have m3: "minibatch ?st3 = it2" by (simp add: log_event_def)
      have "minibatch st' = it2"
      proof (cases "itr mod PRINT_PROGRESS_EVERY = 0")
        case True
        with assms Inr a upd b tr
        have "evaluate p (mb_val_edges p) (mb_val_edges_false p)
                (mb_current_edge_type_idx p (minibatch ?st3)) Validate ?st3 = (None, st')"
          by (simp add: train_step_def log_event_def)
        from evaluate_keeps [OF this] m3 show ?thesis by simp
      next
        case False
        with assms Inr a upd b tr have "st' = ?st3"
          by (simp add: train_step_def log_event_def)
        with m3 show ?thesis by simp
      qed
      with Inr a upd b show ?thesis by simp
    qed
  qed
qed

lemma train_step_returns:
  assumes "never_raises p"
  shows "fst (train_step p itr st) = None"
proof -
  from assms have nx: "\<not> isl (mb_next_minibatch_feed_dict p (minibatch st))"
    by (simp add: never_raises_def)
  then obtain fd1 it1 where a: "mb_next_minibatch_feed_dict p (minibatch st) = Inr (fd1, it1)"
    by (cases "mb_next_minibatch_feed_dict p (minibatch st)") auto
  from assms have "\<not> isl (mb_update_feed_dict p it1 fd1 (FloatVal (flags_dropout p)))"
    by (simp add: never_raises_def)
  then obtain fd2 it2 where
    b: "mb_update_feed_dict p it1 fd1 (FloatVal (flags_dropout p)) = Inr (fd2, it2)"
    by (cases "mb_update_feed_dict p it1 fd1 (FloatVal (flags_dropout p))") auto
  from assms have "\<not> isl (sess_train p (sess st) fd2)"
    by (simp add: never_raises_def)
  then obtain ss where c: "sess_train p (sess st) fd2 = Inr ss"
    by (cases "sess_train p (sess st) fd2") auto
  from assms have v: "evaluation_returns p (mb_val_edges p) (mb_val_edges_false p)
      (mb_current_edge_type_idx p it2)"
    by (simp add: never_raises_def)
  show ?thesis
    by (simp add: train_step_def a b c log_event_def Let_def evaluate_returns [OF v])
qed

lemma batches_ends:
  assumes drains: "\<forall>it fd1 it1 fd2 it2. mb_end p it = Inr False \<longrightarrow>
      mb_next_minibatch_feed_dict p it = Inr (fd1, it1) \<longrightarrow>
      mb_update_feed_dict p it1 fd1 (FloatVal (flags_dropout p)) = Inr (fd2, it2) \<longrightarrow>
      left it2 < (left it :: nat)"
  shows "\<exists>r. batches p itr st = Some r \<and> (never_raises p \<longrightarrow> fst r = None)"
proof (induction "left (minibatch st)" arbitrary: itr st rule: less_induct)
  case less
  have eq: "batches p itr st =
     (case mb_end p (minibatch st) of
        Inl e \<Rightarrow> Some (Some e, st)
      | Inr finished \<Rightarrow>
          if finished then Some (None, log_event (End True) st)
          else
            (case train_step p itr (log_event (End False) st) of
               (Some e, st') \<Rightarrow> Some (Some e, st')
             | (None, st') \<Rightarrow> batches p (Suc itr) st'))"
    by (rule batches.simps)
  show ?case
  proof (cases "mb_end p (minibatch st)")
    case (Inl err)
    have "never_raises p \<longrightarrow> False"
    proof
      assume "never_raises p"
      then have "\<not> isl (mb_end p (minibatch st))" by (simp add: never_raises_def)
      with Inl show False by simp
    qed
    with Inl show ?thesis by (simp add: eq)
  next
    case (Inr finished)
    show ?thesis
    proof (cases finished)
      case True
      with Inr show ?thesis by (simp add: eq)
    next
      case False
      let ?st1 = "log_event (End False) st"
      obtain out st' where ts: "train_step p itr ?st1 = (out, st')"
        by (cases "train_step p itr ?st1")
      show ?thesis
      proof (cases out)
        case (Some err)
        have "never_raises p \<longrightarrow> False"
          using train_step_returns [of p itr ?st1] ts Some by auto
        with Inr False ts Some show ?thesis by (simp add: eq)
      next
        case None
        from train_step_minibatch [OF ts [unfolded None]] obtain fd1 it1 fd2 where
          "mb_next_minibatch_feed_dict p (minibatch ?st1) = Inr (fd1, it1)"
          "mb_update_feed_dict p it1 fd1 (FloatVal (flags_dropout p)) = Inr (fd2, minibatch st')"
          by blast
        moreover have "minibatch ?st1 = minibatch st" by (simp add: log_event_def)
        moreover from Inr False have "mb_end p (minibatch st) = Inr False" by simp
        ultimately have "left (minibatch st') < left (minibatch st)"
          using drains by metis
        from less [OF this] obtain r where
          "batches p (Suc itr) st' = Some r \<and> (never_raises p \<longrightarrow> fst r = None)"
          by blast
        with Inr False ts None show ?thesis by (simp add: eq)
      qed
    qed
  qed
qed

lemma epochs_ends:
  assumes drains: "\<forall>it fd1 it1 fd2 it2. mb_end p it = Inr False \<longrightarrow>
      mb_next_minibatch_feed_dict p it = Inr (fd1, it1) \<longrightarrow>
      mb_update_feed_dict p it1 fd1 (FloatVal (flags_dropout p)) = Inr (fd2, it2) \<longrightarrow>
      left it2 < (left it :: nat)"
  shows "\<exists>r. epochs p n st = Some r \<and> (never_raises p \<longrightarrow> fst r = None)"
proof (induction n arbitrary: st)
  case 0
  show ?case by simp
next
  case (Suc n)
  show ?case
  proof (cases "mb_shuffle p (minibatch st)")
    case (Inl err)
    have "never_raises p \<longrightarrow> False"
    proof
      assume "never_raises p"
      then have "\<not> isl (mb_shuffle p (minibatch st))" by (simp add: never_raises_def)
      with Inl show False by simp
    qed
    with Inl show ?thesis by simp
  next
    case (Inr it')
    let ?st1 = "log_event Shuffle (st\<lparr>minibatch := it'\<rparr>)"
    from batches_ends [OF drains, where itr = 0 and st = ?st1] obtain r1 where
      b: "batches p 0 ?st1 = Some r1" and nr: "never_raises p \<longrightarrow> fst r1 = None"
      by blast
    obtain out st' where r1: "r1 = (out, st')" by (cases r1)
    show ?thesis
    proof (cases out)
      case None
      from Suc [of st'] obtain r where
        "epochs p n st' = Some r \<and> (never_raises p \<longrightarrow> fst r = None)" by blast
      with Inr b r1 None show ?thesis by simp
    next
      case (Some err)
      with nr r1 have "never_raises p \<longrightarrow> False" by simp
      with Inr b r1 Some show ?thesis by simp
    qed
  qed
qed

lemma tests_returns:
  "never_raises p \<Longrightarrow> \<forall>k\<in>set ks. k < the_num_edge_types p \<Longrightarrow> fst (tests p ks st) = None"
proof (induction ks arbitrary: st)
  case Nil
  show ?case by simp
next
  case (Cons k ks)
  from Cons.prems have "evaluation_returns p (mb_test_edges p) (mb_test_edges_false p) k"
    by (simp add: never_raises_def)
  from evaluate_returns [OF this, of "Test k" st]
  obtain st' where "evaluate p (mb_test_edges p) (mb_test_edges_false p) k (Test k) st = (None, st')"
    by (cases "evaluate p (mb_test_edges p) (mb_test_edges_false p) k (Test k) st") auto
  with Cons show ?case by simp
qed

text \<open>
  Claim C9. Let the iterator drain: some count of what is left goes down with every
  minibatch drawn while \<^verbatim>\<open>end()\<close> answers false. Then the run of the training and test
  loops comes to an end, by finishing or by an exception, and its events have gone
  through the steps in the order of the automaton \<open>next_phase\<close>: in every epoch one
  \<^verbatim>\<open>shuffle()\<close> before anything else; then, for as long as \<^verbatim>\<open>end()\<close> answers false, one
  minibatch drawn and one optimization step for it, followed, in the iterations 0, 150,
  300, ... of the epoch, by the validation of the relation
  \<^verbatim>\<open>idx2edge_type[current_edge_type_idx]\<close> of that minibatch, with the metrics that
  \<^verbatim>\<open>get_accuracy_scores\<close> returns on the validation edges; the epoch ends when
  \<^verbatim>\<open>end()\<close> answers true; and after the last epoch the relations 0, 1, ... are tested in
  turn, each with the metrics that \<^verbatim>\<open>get_accuracy_scores\<close> returns on the test edges. A
  run that ends without an exception has tested every relation index below
  \<^verbatim>\<open>num_edge_types\<close>, and the run ends without an exception when no collaborator
  raises one.
\<close>

theorem training_loop_sequence:
  assumes drains: "\<And>it fd1 it1 fd2 it2. mb_end p it = Inr False \<Longrightarrow>
      mb_next_minibatch_feed_dict p it = Inr (fd1, it1) \<Longrightarrow>
      mb_update_feed_dict p it1 fd1 (FloatVal (flags_dropout p)) = Inr (fd2, it2) \<Longrightarrow>
      left it2 < (left it :: nat)"
    and start: "trace st0 = []"
  shows "\<exists>out st ph. train_and_test p st0 = Some (out, st)
       \<and> follow p (start_phase p) (trace st) = Some ph
       \<and> (out = None \<longrightarrow> ph = Testing (the_num_edge_types p))
       \<and> (never_raises p \<longrightarrow> out = None)"
proof -
  have s0: "follow p (start_phase p) (trace st0) = Some (done_phase p (flags_epochs p - flags_epochs p))"
    by (simp add: start start_phase_def done_phase_def)
  from drains have d: "\<forall>it fd1 it1 fd2 it2. mb_end p it = Inr False \<longrightarrow>
      mb_next_minibatch_feed_dict p it = Inr (fd1, it1) \<longrightarrow>
      mb_update_feed_dict p it1 fd1 (FloatVal (flags_dropout p)) = Inr (fd2, it2) \<longrightarrow>
      left it2 < left it"
    by blast
  from epochs_ends [OF d, where n = "flags_epochs p" and st = st0] obtain r1 where
    e: "epochs p (flags_epochs p) st0 = Some r1" and nr1: "never_raises p \<longrightarrow> fst r1 = None"
    by blast
  from epochs_follow [OF e _ s0]
  have ok: "fst r1 = None \<longrightarrow> follow p (start_phase p) (trace (snd r1)) = Some (Testing 0)"
    and some: "\<exists>ph. follow p (start_phase p) (trace (snd r1)) = Some ph" by simp_all
  obtain out1 st1 where r1: "r1 = (out1, st1)" by (cases r1)
  show ?thesis
  proof (cases out1)
    case None
    obtain out st where t: "tests p [0..<the_num_edge_types p] st1 = (out, st)"
      by (cases "tests p [0..<the_num_edge_types p] st1")
    from e r1 None t have run: "train_and_test p st0 = Some (out, st)"
      by (simp add: train_and_test_def)
    from ok r1 None have "follow p (start_phase p) (trace st1) = Some (Testing 0)" by simp
    from tests_follow [OF t _ this]
    have f: "out = None \<longrightarrow> follow p (start_phase p) (trace st) = Some (Testing (the_num_edge_types p))"
      and g: "\<exists>ph. follow p (start_phase p) (trace st) = Some ph" by simp_all
    from g obtain ph where ph: "follow p (start_phase p) (trace st) = Some ph" by blast
    have "never_raises p \<longrightarrow> out = None"
      using tests_returns [of p "[0..<the_num_edge_types p]" st1] t by auto
    with run ph f show ?thesis by auto
  next
    case (Some err)
    with e r1 have run: "train_and_test p st0 = Some (Some err, st1)"
      by (simp add: train_and_test_def)
    from some r1 obtain ph where ph: "follow p (start_phase p) (trace st1) = Some ph" by auto
    from nr1 r1 Some have "never_raises p \<longrightarrow> False" by simp
    with run ph show ?thesis by auto
  qed
qed

subsection \<open>The example run\<close>

lemma example_globals_of: "globals_of example_program ss = example_globals separated_rec"
  by (simp add: globals_of_def example_program_def example_globals_def)

lemma example_scores:
  "get_accuracy_scores (example_globals separated_rec) fd example_pos example_neg (0, 0, 0)
     = (Inr (1, 1, 1), feed_updates (dict_set fd Dropout (IntVal 0)) 0 (0, 0, 0))"
proof -
  let ?g = "example_globals separated_rec"
  let ?s = "\<lparr>preds = [Fin (9 / 10), Fin (8 / 10)], preds_neg = [Fin (1 / 10), Fin (2 / 10)],
              actual = [0::nat, 1],
              predicted = [(Fin (9 / 10), 0::nat), (Fin (8 / 10), 1), (Fin (1 / 10), 2),
                           (Fin (2 / 10), 3)],
              edge_ind = 4::nat\<rparr>"
  have h: "reaches_metrics ?g fd example_pos example_neg (0, 0, 0)
      separated_rec [(0, 1), (1, 2)] [(0, 2), (2, 0)]"
    by (simp add: example_defs separated_rec_def)
  have sc: "map (edge_score ?g separated_rec) [(0, 1), (1, 2)] = [Fin (9 / 10), Fin (8 / 10)]"
    "map (edge_score ?g separated_rec) [(0, 2), (2, 0)] = [Fin (1 / 10), Fin (2 / 10)]"
    by (simp_all add: arith_defs example_globals_def separated_rec_def exp_minus)
  have up: "[0..<4] = [0, 1, 2, 3]" "[0..<2] = [0, 1]"
    by (simp_all add: upt_conv_Cons)
  have se: "score_edges ?g separated_rec example_pos example_neg (0, 0, 0) = Inr ?s"
    unfolding reaches_scored [OF h] pooled_scores_def
    using sc by (simp add: up)
  have pa: "preds_all_of ?g ?s = [9 / 10, 8 / 10, 1 / 10, 2 / 10]"
    by (simp add: preds_all_of_def)
  have la: "labels_all_of ?s = [1, 1, 0, 0]"
    by (simp add: labels_all_of_def numeral_2_eq_2)
  have roc: "roc_auc_score [1, 1, 0, 0] [9 / 10, 8 / 10, 1 / 10, 2 / 10] = Inr 1"
    by (simp add: metric_defs)
  have ap: "average_precision_score [1, 1, 0, 0] [9 / 10, 8 / 10, 1 / 10, 2 / 10] = 1"
    by (simp add: metric_defs)
  have k: "g_apk ?g (actual ?s) (map snd (sorted_reverse (g_sorted_nan ?g) (predicted ?s))) 50 = 1"
    by (simp add: example_globals_def sorted_reverse_def stable_descending_def apk_at_k_def)
  have ne: "predicted ?s \<noteq> []" by simp
  have a: "fst (get_accuracy_scores ?g fd example_pos example_neg (0, 0, 0)) = Inr (1, 1, 1)"
    unfolding reaches_result [OF h se] metrics_unfolded [OF ne] pa la roc ap k by simp
  have b: "snd (get_accuracy_scores ?g fd example_pos example_neg (0, 0, 0))
      = feed_updates (dict_set fd Dropout (IntVal 0)) 0 (0, 0, 0)"
    by (simp add: get_accuracy_scores_def example_globals_def dict_get_def Let_def)
  from a b show ?thesis by (simp add: prod_eq_iff)
qed

lemma example_relation: "dict_get (mb_idx2edge_type example_program) 0 = Inr (0, 0, 0)"
  by (simp add: dict_get_def example_program_def)

lemma example_evaluate:
  "evaluate example_program example_pos example_neg 0 ev st
     = (None, log_event (ev (0, 0, 0) (sess st) (feed_dict st) (1, 1, 1))
                (st\<lparr>feed_dict := feed_updates (dict_set (feed_dict st) Dropout (IntVal 0)) 0 (0, 0, 0)\<rparr>))"
  by (simp add: evaluate_def example_relation example_globals_of example_scores)

lemma example_never_raises: "never_raises example_program"
proof -
  have "evaluation_returns example_program example_pos example_neg 0"
    unfolding evaluation_returns_def
    by (intro exI [of _ "(0, 0, 0)"]) (simp add: example_relation example_globals_of example_scores)
  moreover have "mb_val_edges example_program = example_pos"
    "mb_val_edges_false example_program = example_neg"
    "mb_test_edges example_program = example_pos"
    "mb_test_edges_false example_program = example_neg"
    "mb_current_edge_type_idx example_program it = 0"
    "the_num_edge_types example_program = 1"
    "\<not> isl (mb_shuffle example_program it)" "\<not> isl (mb_end example_program it)"
    "\<not> isl (mb_next_minibatch_feed_dict example_program it)"
    "\<not> isl (mb_update_feed_dict example_program it fd dr)"
    "\<not> isl (sess_train example_program ss fd)" for it fd dr ss
    by (simp_all add: example_program_def)
  ultimately show ?thesis
    by (simp add: never_raises_def)
qed

lemma example_run:
  "\<exists>st. train_and_test example_program example_start = Some (None, st)
     \<and> trace st = [Shuffle, End False, Draw 0, Optimize,
                   Validate (0, 0, 0) () first_feed (1, 1, 1),
                   End False, Draw 0, Optimize, End True,
                   Shuffle, End False, Draw 0, Optimize,
                   Validate (0, 0, 0) () first_feed (1, 1, 1),
                   End False, Draw 0, Optimize, End True,
                   Test 0 (0, 0, 0) () second_feed (1, 1, 1)]"
proof -
  have ev: "evaluate example_program (mb_val_edges example_program) (mb_val_edges_false example_program) 0 ev st
     = (None, log_event (ev (0, 0, 0) (sess st) (feed_dict st) (1, 1, 1))
                (st\<lparr>feed_dict := feed_updates (dict_set (feed_dict st) Dropout (IntVal 0)) 0 (0, 0, 0)\<rparr>))"
    for ev and st :: "(nat, unit) state"
    using example_evaluate [of ev st] by (simp add: example_program_def)
  have ev2: "evaluate example_program (mb_test_edges example_program) (mb_test_edges_false example_program) 0 ev st
     = (None, log_event (ev (0, 0, 0) (sess st) (feed_dict st) (1, 1, 1))
                (st\<lparr>feed_dict := feed_updates (dict_set (feed_dict st) Dropout (IntVal 0)) 0 (0, 0, 0)\<rparr>))"
    for ev and st :: "(nat, unit) state"
    using example_evaluate [of ev st] by (simp add: example_program_def)
  have fields: "mb_shuffle example_program = (\<lambda>left. Inr 2)"
    "mb_end example_program = (\<lambda>left. Inr (left = 0))"
    "mb_next_minibatch_feed_dict example_program = (\<lambda>left. Inr ([(Batch, Tensor left)], left - 1))"
    "mb_update_feed_dict example_program = (\<lambda>left fd dropout. Inr (dict_set fd Dropout dropout, left))"
    "mb_current_edge_type_idx example_program = (\<lambda>left. 0)"
    "sess_train example_program = (\<lambda>ss fd. Inr ss)"
    "the_num_edge_types example_program = 1"
    "flags_epochs example_program = 2"
    "flags_dropout example_program = 0.1"
    by (simp_all add: example_program_def)
  have feeds: "dict_set [(Batch, Tensor 2)] Dropout (FloatVal 0.1) = first_feed"
    "dict_set [(Batch, Tensor (Suc 0))] Dropout (FloatVal 0.1) = second_feed"
    by (simp_all add: dict_set_def dict_has_def first_feed_def second_feed_def)
  show ?thesis
    by (simp add: train_and_test_def fields numeral_2_eq_2 batches.simps train_step_def ev ev2
          Let_def log_event_def example_start_def PRINT_PROGRESS_EVERY_def feeds
          feeds [unfolded numeral_2_eq_2])
qed

text \<open>
  Witness for C9: the example iterator drains and no collaborator raises; the run
  finishes, and its events are the two epochs of two minibatches each, validated at
  iteration 0 only, and the test of relation 0, every evaluation with the metrics 1, 1, 1
  of the separated scores.
\<close>

theorem training_loop_sequence_witness:
  "\<exists>st. train_and_test example_program example_start = Some (None, st)
     \<and> trace example_start = []
     \<and> never_raises example_program
     \<and> trace st = [Shuffle, End False, Draw 0, Optimize,
                   Validate (0, 0, 0) () first_feed (1, 1, 1),
                   End False, Draw 0, Optimize, End True,
                   Shuffle, End False, Draw 0, Optimize,
                   Validate (0, 0, 0) () first_feed (1, 1, 1),
                   End False, Draw 0, Optimize, End True,
                   Test 0 (0, 0, 0) () second_feed (1, 1, 1)]
     \<and> follow example_program (start_phase example_program) (trace st)
          = Some (Testing (the_num_edge_types example_program))"
proof -
  from example_run obtain st
    where run: "train_and_test example_program example_start = Some (None, st)"
      and tr: "trace st = [Shuffle, End False, Draw 0, Optimize,
                   Validate (0, 0, 0) () first_feed (1, 1, 1),
                   End False, Draw 0, Optimize, End True,
                   Shuffle, End False, Draw 0, Optimize,
                   Validate (0, 0, 0) () first_feed (1, 1, 1),
                   End False, Draw 0, Optimize, End True,
                   Test 0 (0, 0, 0) () second_feed (1, 1, 1)]"
    by blast
  have start: "trace example_start = []" by (simp add: example_start_def)
  have "\<exists>out st ph. train_and_test example_program example_start = Some (out, st)
       \<and> follow example_program (start_phase example_program) (trace st) = Some ph
       \<and> (out = None \<longrightarrow> ph = Testing (the_num_edge_types example_program))
       \<and> (never_raises example_program \<longrightarrow> out = None)"
  proof (rule training_loop_sequence [where left = "\<lambda>it. it"])
    show "trace example_start = []" by (rule start)
  next
    fix it it1 it2 :: nat and fd1 fd2 :: feed
    assume "mb_end example_program it = Inr False"
      "mb_next_minibatch_feed_dict example_program it = Inr (fd1, it1)"
      "mb_update_feed_dict example_program it1 fd1 (FloatVal (flags_dropout example_program))
         = Inr (fd2, it2)"
    then show "it2 < it" by (auto simp: example_program_def)
  qed
  then obtain out st' ph where
    "train_and_test example_program example_start = Some (out, st')"
    "follow example_program (start_phase example_program) (trace st') = Some ph"
    "out = None \<longrightarrow> ph = Testing (the_num_edge_types example_program)"
    by blast
  with run have "follow example_program (start_phase example_program) (trace st)
          = Some (Testing (the_num_edge_types example_program))"
    by simp
  with run tr start example_never_raises show ?thesis by blast
qed

section \<open>Properties of the edge split partitioner\<close>

lemma concat_empty_rows: "concat (map (\<lambda>u. []) us) = []"
  by (induction us) auto

lemma distinct_all_pairs: "distinct (all_pairs r c)"
proof (cases "c = 0")
  case True
  show ?thesis unfolding all_pairs_def True by (simp add: concat_empty_rows)
next
  case False
  then have ex: "\<exists>x. x < c" by (intro exI [of _ 0]) simp
  have d1: "distinct (map (\<lambda>u. map (Pair u) [0..<c]) [0..<r])"
    unfolding distinct_map using ex by (simp add: inj_on_def)
  have d2: "distinct ys" if "ys \<in> set (map (\<lambda>u. map (Pair u) [0..<c]) [0..<r])" for ys
  proof -
    from that obtain u where "ys = map (Pair u) [0..<c]" by auto
    then show ?thesis by (simp add: distinct_map inj_on_def)
  qed
  have d3: "set ys \<inter> set zs = {}"
    if "ys \<in> set (map (\<lambda>u. map (Pair u) [0..<c]) [0..<r])"
      "zs \<in> set (map (\<lambda>u. map (Pair u) [0..<c]) [0..<r])" "ys \<noteq> zs" for ys zs
  proof -
    from that obtain u v where "ys = map (Pair u) [0..<c]" "zs = map (Pair v) [0..<c]" by auto
    with that(3) show ?thesis by auto
  qed
  show ?thesis
    unfolding all_pairs_def by (rule distinct_concat [OF d1 d2 d3])
qed

lemma set_all_pairs: "set (all_pairs r c) = {(u, v). u < r \<and> v < c}"
  by (auto simp: all_pairs_def)

lemma distinct_extract_edges: "distinct (extract_edges symmetric adj)"
  by (simp add: extract_edges_def distinct_all_pairs)

lemma draw_negative_ok:
  "draw_negative adj draw retries k selected = Inr (pair, k') \<Longrightarrow>
   ent adj (fst pair) (snd pair) = 0 \<and> pair \<notin> set selected
   \<and> fst pair < nrows adj \<and> snd pair < ncols adj"
  by (induction retries arbitrary: k) (auto simp: Let_def split: if_splits)

lemma sample_negatives_ok:
  "sample_negatives adj draw bound n k selected = Inr (negs, k') \<Longrightarrow>
   distinct selected \<Longrightarrow> (\<forall>e\<in>set selected. ent adj (fst e) (snd e) = 0) \<Longrightarrow>
   length negs = length selected + n \<and> distinct negs
   \<and> (\<forall>e\<in>set negs. ent adj (fst e) (snd e) = 0)"
proof (induction n arbitrary: k selected)
  case 0
  then show ?case by auto
next
  case (Suc n)
  from Suc.prems(1) obtain pair k1 where d: "draw_negative adj draw bound k selected = Inr (pair, k1)"
    and rest: "sample_negatives adj draw bound n k1 (selected @ [pair]) = Inr (negs, k')"
    by (auto split: sum.splits)
  from draw_negative_ok [OF d] Suc.prems(2,3)
  have "distinct (selected @ [pair])" "\<forall>e\<in>set (selected @ [pair]). ent adj (fst e) (snd e) = 0"
    by auto
  from Suc.IH [OF rest this] show ?case by simp
qed



lemma split_sets:
  fixes T U V W S :: "'a set"
  assumes "T \<union> W = S" "U \<union> V = W" "T \<inter> W = {}" "U \<inter> V = {}"
  shows "T \<inter> U = {}" "T \<inter> V = {}" "U \<inter> V = {}" "T \<union> U \<union> V = S"
  using assms by blast+

lemma cut_three:
  fixes xs :: "'a list"
  assumes "distinct xs"
  shows "set (take a xs) \<inter> set (take b (drop a xs)) = {}"
    and "set (take a xs) \<inter> set (drop (a + b) xs) = {}"
    and "set (take b (drop a xs)) \<inter> set (drop (a + b) xs) = {}"
    and "set (take a xs) \<union> set (take b (drop a xs)) \<union> set (drop (a + b) xs) = set xs"
    and "length (take a xs) + length (take b (drop a xs)) + length (drop (a + b) xs) = length xs"
proof -
  have A: "set (take a xs) \<union> set (drop a xs) = set xs"
    by (subst set_append [symmetric]) simp
  have C: "drop b (drop a xs) = drop (a + b) xs"
    by (simp add: add.commute)
  have "set (take b (drop a xs)) \<union> set (drop b (drop a xs)) = set (drop a xs)"
    by (subst set_append [symmetric]) (simp only: append_take_drop_id)
  then have B: "set (take b (drop a xs)) \<union> set (drop (a + b) xs) = set (drop a xs)"
    unfolding C .
  have D1: "set (take a xs) \<inter> set (drop a xs) = {}"
    by (rule set_take_disj_set_drop_if_distinct [OF assms]) simp
  have "set (take b (drop a xs)) \<inter> set (drop b (drop a xs)) = {}"
    by (rule set_take_disj_set_drop_if_distinct) (simp_all add: assms)
  then have D2: "set (take b (drop a xs)) \<inter> set (drop (a + b) xs) = {}"
    unfolding C .
  note r = split_sets [OF A B D1 D2]
  show "set (take a xs) \<inter> set (take b (drop a xs)) = {}" by (rule r(1))
  show "set (take a xs) \<inter> set (drop (a + b) xs) = {}" by (rule r(2))
  show "set (take b (drop a xs)) \<inter> set (drop (a + b) xs) = {}" by (rule r(3))
  show "set (take a xs) \<union> set (take b (drop a xs)) \<union> set (drop (a + b) xs) = set xs"
    by (rule r(4))
  show "length (take a xs) + length (take b (drop a xs)) + length (drop (a + b) xs) = length xs"
    by simp
qed

text \<open>
  Claim C1. For a relation whose shuffle is a permutation of its edges and whose negative
  sampling does not give up: the training, validation and test positives are pairwise
  disjoint, their cardinalities add up to the number of edges of the relation (no edge
  is excluded), and together they are the edges of the relation; every split has as many
  negatives as positives; and no negative is an edge of the relation.
\<close>

theorem edge_split_integrity:
  assumes perm: "mset (shuffle_edges P (extract_edges symmetric adj))
                   = mset (extract_edges symmetric adj)"
    and split: "partition_relation P symmetric adj = Inr s"
  shows "set (train_edges s) \<inter> set (val_edges s) = {}
    \<and> set (train_edges s) \<inter> set (test_edges s) = {}
    \<and> set (val_edges s) \<inter> set (test_edges s) = {}
    \<and> card (set (train_edges s)) + card (set (val_edges s)) + card (set (test_edges s))
        = card (set (extract_edges symmetric adj))
    \<and> set (train_edges s) \<union> set (val_edges s) \<union> set (test_edges s)
        = set (extract_edges symmetric adj)
    \<and> card (set (train_edges_false s)) = card (set (train_edges s))
    \<and> card (set (val_edges_false s)) = card (set (val_edges s))
    \<and> card (set (test_edges_false s)) = card (set (test_edges s))
    \<and> (\<forall>e \<in> set (train_edges_false s) \<union> set (val_edges_false s) \<union> set (test_edges_false s).
          ent adj (fst e) (snd e) = 0 \<and> e \<notin> set (extract_edges symmetric adj))"
proof -
  define edges where "edges = extract_edges symmetric adj"
  define xs where "xs = shuffle_edges P edges"
  define n where "n = nat \<lfloor>held_out_fraction P * real (length edges)\<rfloor>"
  define val where "val = take n xs"
  define test where "test = take n (drop n xs)"
  define train where "train = drop (n + n) xs"
  have dx: "distinct xs"
    using perm distinct_extract_edges [of symmetric adj] unfolding xs_def edges_def
    by (metis mset_eq_imp_distinct_iff)
  have sx: "set xs = set edges" using perm unfolding xs_def edges_def by (rule mset_eq_setD)
  have lx: "length xs = length edges" using perm unfolding xs_def edges_def by (rule mset_eq_length)
  have de: "distinct edges" unfolding edges_def by (rule distinct_extract_edges)
  note cut = cut_three [OF dx, of n n, folded val_def test_def train_def]
  from split obtain trf k1 vaf k2 tef k3 where
    n1: "sample_negatives adj (random_draw P) (retry_bound P) (length train) 0 [] = Inr (trf, k1)"
    and n2: "sample_negatives adj (random_draw P) (retry_bound P) (length val) k1 [] = Inr (vaf, k2)"
    and n3: "sample_negatives adj (random_draw P) (retry_bound P) (length test) k2 [] = Inr (tef, k3)"
    and s: "s = \<lparr>train_edges = train, val_edges = val, test_edges = test,
                  train_edges_false = trf, val_edges_false = vaf, test_edges_false = tef\<rparr>"
    unfolding train_def val_def test_def n_def xs_def edges_def
    by (auto simp: partition_relation_def Let_def split: sum.splits)
  have o1: "length trf = length train" "distinct trf" "\<forall>e\<in>set trf. ent adj (fst e) (snd e) = 0"
    using sample_negatives_ok [OF n1] by simp_all
  have o2: "length vaf = length val" "distinct vaf" "\<forall>e\<in>set vaf. ent adj (fst e) (snd e) = 0"
    using sample_negatives_ok [OF n2] by simp_all
  have o3: "length tef = length test" "distinct tef" "\<forall>e\<in>set tef. ent adj (fst e) (snd e) = 0"
    using sample_negatives_ok [OF n3] by simp_all
  have dtrain: "distinct train" and dval: "distinct val" and dtest: "distinct test"
    using dx by (simp_all add: train_def val_def test_def)
  have c: "card (set train) = length train" "card (set val) = length val"
    "card (set test) = length test" "card (set edges) = length edges"
    "card (set trf) = length trf" "card (set vaf) = length vaf" "card (set tef) = length tef"
    using dtrain dval dtest de o1(2) o2(2) o3(2) by (simp_all add: distinct_card)
  have cards: "card (set train) + card (set val) + card (set test) = card (set edges)"
    using cut(5) lx unfolding c by simp
  have non_edge: "e \<notin> set edges" if "ent adj (fst e) (snd e) = 0" for e
    using that by (auto simp: edges_def extract_edges_def)
  have negs: "\<forall>e \<in> set trf \<union> set vaf \<union> set tef.
          ent adj (fst e) (snd e) = 0 \<and> e \<notin> set edges"
    using o1(3) o2(3) o3(3) non_edge by blast
  have u: "set train \<union> set val \<union> set test = set edges"
    using cut(4) sx by blast
  have i: "set train \<inter> set val = {}" "set train \<inter> set test = {}" "set val \<inter> set test = {}"
    using cut(1-3) by blast+
  show ?thesis
    unfolding s edges_def [symmetric]
    using i cards u negs c(5-7) c(1-3) o1(1) o2(1) o3(1) by simp
qed

text \<open>
  Witness for C1: the example relation with four edges, split into two training edges,
  one validation edge and one test edge, with two, one and one negatives.
\<close>

theorem edge_split_integrity_witness:
  "mset (shuffle_edges split_partitioner (extract_edges False split_adj))
     = mset (extract_edges False split_adj)
   \<and> extract_edges False split_adj = [(0, 1), (0, 2), (1, 2), (2, 0)]
   \<and> partition_relation split_partitioner False split_adj
       = Inr \<lparr>train_edges = [(0, 2), (0, 1)], val_edges = [(2, 0)], test_edges = [(1, 2)],
              train_edges_false = [(0, 0), (1, 1)], val_edges_false = [(2, 2)],
              test_edges_false = [(0, 0)]\<rparr>
   \<and> set [(0, 2), (0, 1)] \<inter> set [(2, 0)] = ({} :: (nat \<times> nat) set)
   \<and> card (set [(0 :: nat, 2 :: nat), (0, 1)]) + card (set [(2 :: nat, 0 :: nat)])
        + card (set [(1 :: nat, 2 :: nat)])
       = card (set (extract_edges False split_adj))
   \<and> card (set [(0 :: nat, 0 :: nat), (1, 1)]) = card (set [(0 :: nat, 2 :: nat), (0, 1)])"
proof -
  have e: "extract_edges False split_adj = [(0, 1), (0, 2), (1, 2), (2, 0)]"
    by code_simp
  have perm: "mset (shuffle_edges split_partitioner (extract_edges False split_adj))
     = mset (extract_edges False split_adj)"
    by (simp add: split_partitioner_def)
  have split: "partition_relation split_partitioner False split_adj
       = Inr \<lparr>train_edges = [(0, 2), (0, 1)], val_edges = [(2, 0)], test_edges = [(1, 2)],
              train_edges_false = [(0, 0), (1, 1)], val_edges_false = [(2, 2)],
              test_edges_false = [(0, 0)]\<rparr>"
    by code_simp
  from edge_split_integrity [OF perm split]
  have "set [(0, 2), (0, 1)] \<inter> set [(2, 0)] = ({} :: (nat \<times> nat) set)
   \<and> card (set [(0 :: nat, 2 :: nat), (0, 1)]) + card (set [(2 :: nat, 0 :: nat)])
        + card (set [(1 :: nat, 2 :: nat)])
       = card (set (extract_edges False split_adj))
   \<and> card (set [(0 :: nat, 0 :: nat), (1, 1)]) = card (set [(0 :: nat, 2 :: nat), (0, 1)])"
    by (simp only: edge_split.simps)
  then show ?thesis using e perm split by (simp only: simp_thms)
qed

end
